theory Spec2Isabelle
  imports Main
begin

section \<open>Parsed markup\<close>

text \<open>
  The crawler hands every stored markup string to \<open>BeautifulSoup\<close> and works on the tree
  it returns. The embedding starts from that tree: a stored document is a \<open>node\<close>, the
  root being the parser's own \<open>[document]\<close> element. An attribute value is a string,
  except that the parser turns \<open>class\<close> into the list of its whitespace-separated
  items; a value assigned by the crawler (\<open>i["class"] = "link"\<close>) stays a string.
  \<open>Gone\<close> stands where \<open>decompose()\<close> destroyed a subtree while a loop still holds
  references into it; no stored document contains it.
\<close>

datatype attr_value = AStr string | AList "string list"

type_synonym attrs = "(string \<times> attr_value) list"

datatype node = Text string | Elem string attrs "node list" | Gone

type_synonym path = "nat list"

fun is_elem :: "node \<Rightarrow> bool" where
  "is_elem (Elem _ _ _) = True"
| "is_elem _ = False"

fun contents :: "node \<Rightarrow> node list" where
  "contents (Elem _ _ cs) = cs"
| "contents _ = []"

fun node_attrs :: "node \<Rightarrow> attrs" where
  "node_attrs (Elem _ a _) = a"
| "node_attrs _ = []"

fun node_at :: "node \<Rightarrow> path \<Rightarrow> node option" where
  "node_at n [] = Some n"
| "node_at (Elem _ _ cs) (i # p) = (if i < length cs then node_at (cs ! i) p else None)"
| "node_at _ (i # p) = None"

text \<open>Replace the subtree at a path (the tree is unchanged when the path leads nowhere).\<close>

fun update_at :: "path \<Rightarrow> (node \<Rightarrow> node) \<Rightarrow> node \<Rightarrow> node" where
  "update_at [] f n = f n"
| "update_at (i # p) f (Elem nm a cs) =
     (if i < length cs then Elem nm a (cs[i := update_at p f (cs ! i)]) else Elem nm a cs)"
| "update_at (i # p) f n = n"

text \<open>\<open>tag.descendants\<close>: the paths of all nodes below a node, in document order.\<close>

fun desc_paths :: "node \<Rightarrow> path list"
  and desc_paths_list :: "nat \<Rightarrow> node list \<Rightarrow> path list" where
  "desc_paths (Elem _ _ cs) = desc_paths_list 0 cs"
| "desc_paths (Text _) = []"
| "desc_paths Gone = []"
| "desc_paths_list i [] = []"
| "desc_paths_list i (c # cs) =
     ([i] # map ((#) i) (desc_paths c)) @ desc_paths_list (Suc i) cs"

text \<open>\<open>tag.text\<close>: all strings below the node, concatenated.\<close>

fun get_text :: "node \<Rightarrow> string" where
  "get_text (Text s) = s"
| "get_text (Elem _ _ cs) = concat (map get_text cs)"
| "get_text Gone = []"

text \<open>
  \<open>tag.string\<close>: the single string child, looked for through single element children;
  \<open>None\<close> when a tag on the way has no child or more than one.
\<close>

fun tag_string :: "node \<Rightarrow> string option" where
  "tag_string (Text s) = Some s"
| "tag_string (Elem _ _ [c]) = tag_string c"
| "tag_string _ = None"

text \<open>
  \<open>str(tag)\<close>: the markup of a subtree. The attributes are written sorted by name;
  \<open>&\<close>, \<open><\<close> and \<open>>\<close> are written as entities in text and in attribute values; a
  value stands between double quotes, between single quotes when it holds a double
  quote and no single one, and with its double quotes as entities when it holds both; a
  class list is joined by spaces; an empty tag is self-closing when it is one of the
  parser's empty-element tags.
\<close>

definition empty_element_tags :: "string list" where
  "empty_element_tags =
     [''br'', ''hr'', ''input'', ''img'', ''meta'', ''spacer'', ''link'', ''frame'', ''base'']"

fun join :: "string \<Rightarrow> string list \<Rightarrow> string" where
  "join sep [] = []"
| "join sep [x] = x"
| "join sep (x # y # ys) = x @ sep @ join sep (y # ys)"

fun attr_str :: "attr_value \<Rightarrow> string" where
  "attr_str (AStr s) = s"
| "attr_str (AList cs) = join '' '' cs"

definition escape :: "string \<Rightarrow> string" where
  "escape s =
     concat (map (\<lambda>c. if c = CHR ''&'' then ''&amp;''
                      else if c = CHR ''<'' then ''&lt;''
                      else if c = CHR ''>'' then ''&gt;''
                      else [c]) s)"

definition quoted :: "string \<Rightarrow> string" where
  "quoted v =
     (if CHR 0x22 \<in> set v
      then (if CHR 0x27 \<in> set v
            then [CHR 0x22] @ concat (map (\<lambda>c. if c = CHR 0x22 then ''&quot;'' else [c]) v) @ [CHR 0x22]
            else [CHR 0x27] @ v @ [CHR 0x27])
      else [CHR 0x22] @ v @ [CHR 0x22])"

text \<open>The order of strings by code points, and the attributes sorted by their names.\<close>

fun str_le :: "string \<Rightarrow> string \<Rightarrow> bool" where
  "str_le [] t = True"
| "str_le (c # cs) [] = False"
| "str_le (c # cs) (d # ds) = ((of_char c :: nat) < of_char d \<or> (c = d \<and> str_le cs ds))"

fun insert_attr :: "string \<times> attr_value \<Rightarrow> attrs \<Rightarrow> attrs" where
  "insert_attr p [] = [p]"
| "insert_attr p (q # qs) = (if str_le (fst p) (fst q) then p # q # qs else q # insert_attr p qs)"

definition sorted_attrs :: "attrs \<Rightarrow> attrs" where
  "sorted_attrs a = foldr insert_attr a []"

definition render_attrs :: "attrs \<Rightarrow> string" where
  "render_attrs a =
     concat (map (\<lambda>(k, v). '' '' @ k @ ''='' @ quoted (escape (attr_str v))) (sorted_attrs a))"

fun render :: "node \<Rightarrow> string" where
  "render (Text s) = escape s"
| "render Gone = []"
| "render (Elem nm a cs) =
     (if cs = [] \<and> nm \<in> set empty_element_tags then ''<'' @ nm @ render_attrs a @ ''/>''
      else ''<'' @ nm @ render_attrs a @ ''>'' @ concat (map render cs) @ ''</'' @ nm @ ''>'')"

subsection \<open>CSS selection\<close>

text \<open>
  \<open>tag.select(selector)\<close> as the crawler uses it: a selector is a sequence of steps, each
  a combinator (descendant, or child for \<open>>\<close>) and a compound of an optional tag name,
  an optional id and classes. Selection starts from the tag itself as the only context;
  each step collects, context by context, the descendants (or children) that match, and
  drops an element already collected. The result is in document order and lies strictly
  below the tag.
\<close>

datatype comb = Descendant | Child

record compound =
  sel_name :: "string option"
  sel_id :: "string option"
  sel_classes :: "string list"

type_synonym selector = "(comb \<times> compound) list"

text \<open>The items \<open>issubset\<close> iterates over: list members, or the characters of a string.\<close>

fun class_items :: "attr_value \<Rightarrow> string list" where
  "class_items (AList cs) = cs"
| "class_items (AStr s) = map (\<lambda>c. [c]) s"

fun matches :: "compound \<Rightarrow> node \<Rightarrow> bool" where
  "matches c (Elem nm a _) =
     ((case sel_name c of None \<Rightarrow> True | Some t \<Rightarrow> nm = t)
      \<and> (case sel_id c of None \<Rightarrow> True | Some i \<Rightarrow> map_of a ''id'' = Some (AStr i))
      \<and> (sel_classes c = [] \<or>
           set (sel_classes c) \<subseteq>
             set (case map_of a ''class'' of None \<Rightarrow> [] | Some v \<Rightarrow> class_items v)))"
| "matches c _ = False"

definition candidates :: "node \<Rightarrow> comb \<Rightarrow> path \<Rightarrow> path list" where
  "candidates doc cb ctx =
     (case node_at doc ctx of
        None \<Rightarrow> []
      | Some n \<Rightarrow>
          (case cb of
             Descendant \<Rightarrow> map ((@) ctx) (desc_paths n)
           | Child \<Rightarrow> map (\<lambda>i. ctx @ [i]) [0 ..< length (contents n)]))"

definition matches_at :: "node \<Rightarrow> compound \<Rightarrow> path \<Rightarrow> bool" where
  "matches_at doc c p = (case node_at doc p of None \<Rightarrow> False | Some n \<Rightarrow> matches c n)"

text \<open>Appending unless already present: the idiom of every de-duplicating loop here.\<close>

definition append_new :: "'a list \<Rightarrow> 'a \<Rightarrow> 'a list" where
  "append_new acc x = (if x \<in> set acc then acc else acc @ [x])"

definition sel_step :: "node \<Rightarrow> path list \<Rightarrow> comb \<times> compound \<Rightarrow> path list" where
  "sel_step doc ctxs st =
     foldl append_new []
       (concat (map (\<lambda>ctx. filter (matches_at doc (snd st)) (candidates doc (fst st) ctx)) ctxs))"

definition select_paths :: "node \<Rightarrow> path \<Rightarrow> selector \<Rightarrow> path list" where
  "select_paths doc scope sel = foldl (sel_step doc) [scope] sel"

definition select :: "node \<Rightarrow> selector \<Rightarrow> node list" where
  "select n sel = List.map_filter (node_at n) (select_paths n [] sel)"

section \<open>Strings\<close>

definition is_digit :: "char \<Rightarrow> bool" where
  "is_digit c = (c \<in> set ''0123456789'')"

text \<open>
  \<open>str.strip()\<close>, \<open>str.rstrip(chars)\<close> and \<open>str.strip(chars)\<close>. A character stands
  for a code point below 256; \<open>whitespace\<close> are those that \<open>str.isspace\<close> accepts.
\<close>

definition whitespace :: "char list" where
  "whitespace =
     [CHR '' '', CHR 0x09, CHR 0x0A, CHR 0x0B, CHR 0x0C, CHR 0x0D,
      CHR 0x1C, CHR 0x1D, CHR 0x1E, CHR 0x1F, CHR 0x85, CHR 0xA0]"

definition rstrip_chars :: "char list \<Rightarrow> string \<Rightarrow> string" where
  "rstrip_chars cs s = rev (dropWhile (\<lambda>c. c \<in> set cs) (rev s))"

definition strip_chars :: "char list \<Rightarrow> string \<Rightarrow> string" where
  "strip_chars cs s = rstrip_chars cs (dropWhile (\<lambda>c. c \<in> set cs) s)"

definition strip :: "string \<Rightarrow> string" where
  "strip s = strip_chars whitespace s"

text \<open>\<open>s[-4:]\<close>: the last four characters, or all of a shorter string.\<close>

definition last4 :: "string \<Rightarrow> string" where
  "last4 s = drop (length s - 4) s"

text \<open>\<open>str.split(sep)\<close> for a one-character separator.\<close>

fun split_on :: "char \<Rightarrow> string \<Rightarrow> string list" where
  "split_on sep [] = [[]]"
| "split_on sep (c # cs) =
     (case split_on sep cs of
        [] \<Rightarrow> [[c]]
      | w # ws \<Rightarrow> if c = sep then [] # w # ws else (c # w) # ws)"

text \<open>\<open>re.search('[0-9]+', s)\<close>: the first maximal run of digits, if there is a digit.\<close>

definition re_digits :: "string \<Rightarrow> string option" where
  "re_digits s =
     (let r = dropWhile (\<lambda>c. \<not> is_digit c) s
      in if r = [] then None else Some (takeWhile is_digit r))"

text \<open>
  A pattern ending in \<open>$\<close> matches at the end of the string, and also just before a
  newline that ends the string. \<open>re_digits_end\<close> is \<open>re.search('[0-9]+$', s)\<close>;
  \<open>re_scp_url\<close> says whether \<open>re.search("[scp]+-[0-9]+$", s)\<close> finds a match.
\<close>

definition trail_digits :: "string \<Rightarrow> string" where
  "trail_digits s = rev (takeWhile is_digit (rev s))"

definition dollar_ends :: "string \<Rightarrow> string list" where
  "dollar_ends s = s # (if s \<noteq> [] \<and> last s = CHR 0x0A then [butlast s] else [])"

definition re_digits_end :: "string \<Rightarrow> string option" where
  "re_digits_end s =
     (case filter (\<lambda>d. d \<noteq> []) (map trail_digits (dollar_ends s)) of
        [] \<Rightarrow> None
      | d # _ \<Rightarrow> Some d)"

definition scp_suffix :: "string \<Rightarrow> bool" where
  "scp_suffix s =
     (let d = trail_digits s; r = rev (take (length s - length d) s)
      in d \<noteq> [] \<and> (case r of
                       a # b # _ \<Rightarrow> a = CHR ''-'' \<and> b \<in> set ''scp''
                     | _ \<Rightarrow> False))"

definition re_scp_url :: "string \<Rightarrow> bool" where
  "re_scp_url s = (\<exists>t \<in> set (dollar_ends s). scp_suffix t)"

text \<open>\<open>str(n)\<close> for a natural number, as \<open>"{}".format(n)\<close> writes it.\<close>

fun digits_of :: "nat \<Rightarrow> string" where
  "digits_of n =
     (if n < 10 then [''0123456789'' ! n]
      else digits_of (n div 10) @ [''0123456789'' ! (n mod 10)])"

section \<open>Snapshot tables\<close>

text \<open>
  The crawler keeps a snapshot of the wiki in a database; \<open>Snapshot.rewrite\<close> reads the
  table \<open>DBRewrite\<close> (columns url, author, override; url unique) and returns the row for
  a url, or \<open>False\<close> when there is none.
\<close>

type_synonym url = string

record db_rewrite =
  rw_url :: url
  rw_author :: string
  rw_override :: bool

record revision =
  rev_number :: int
  rev_user :: string
  rev_time :: string
  rev_comment :: string

record author =
  username :: string
  status :: string

datatype error =
  PageDoesNotExist | TitleDoesNotExist | IndexError | AttributeError | KeyError
  | ValueError | TypeError | ParserError | RecursionError

definition rewrite :: "db_rewrite list \<Rightarrow> url \<Rightarrow> db_rewrite option" where
  "rewrite tbl u = find (\<lambda>r. rw_url r = u) tbl"

definition au :: "string \<Rightarrow> string \<Rightarrow> author" where
  "au n s = \<lparr>username = n, status = s\<rparr>"

text \<open>
  \<open>Page._meta_authors\<close>: \<open>self.history[0]\<close> raises IndexError on an empty history.
\<close>

definition meta_authors :: "db_rewrite list \<Rightarrow> url \<Rightarrow> revision list \<Rightarrow> error + author list" where
  "meta_authors tbl u history =
     (case history of
        [] \<Rightarrow> Inl IndexError
      | r # _ \<Rightarrow>
          (let his_author = rev_user r in
           case rewrite tbl u of
             Some rw \<Rightarrow>
               if rw_override rw then Inr [au (rw_author rw) ''original'']
               else Inr [au his_author ''original'', au (rw_author rw) ''rewrite'']
           | None \<Rightarrow> Inr [au his_author ''original'']))"

record db_page =
  pd_html :: node
  pd_history :: "node option"
  pd_votes :: "node option"

record db_title =
  t_url :: url
  t_skip :: string
  t_title :: string

text \<open>
  The snapshot as the page model reads it: the tables \<open>DBPage\<close> (by url), \<open>DBTitle\<close>,
  \<open>DBImage\<close> (only the urls matter here) and \<open>DBRewrite\<close>. \<open>arrow_format\<close> is the
  date library's conversion of a revision's time stamp from \<open>DD MMM YYYY HH:mm\<close> to
  \<open>YYYY-MM-DD HH:mm:ss\<close>, \<open>None\<close> where it raises.
\<close>

record snapshot =
  db_pages :: "(url \<times> db_page) list"
  db_titles :: "db_title list"
  db_images :: "url list"
  db_rewrites :: "db_rewrite list"
  arrow_format :: "string \<Rightarrow> string option"

definition site :: string where
  "site = ''http://www.scp-wiki.net''"

text \<open>\<open>Snapshot.pagedata\<close>: raises \<open>DBPage.DoesNotExist\<close> for an unknown url.\<close>

definition pagedata :: "snapshot \<Rightarrow> url \<Rightarrow> error + db_page" where
  "pagedata sn u = (case map_of (db_pages sn) u of None \<Rightarrow> Inl PageDoesNotExist | Some pd \<Rightarrow> Inr pd)"

text \<open>
  \<open>Snapshot.title\<close>: the title stored for the url, else the one stored for the short
  code \<open>SCP-<digits at the end of the url>\<close>. Without final digits the search returns
  \<open>None\<close> and \<open>.group\<close> raises AttributeError.
\<close>

definition sn_title :: "snapshot \<Rightarrow> url \<Rightarrow> error + string" where
  "sn_title sn u =
     (case find (\<lambda>r. t_url r = u) (db_titles sn) of
        Some r \<Rightarrow> Inr (t_title r)
      | None \<Rightarrow>
          (case re_digits_end u of
             None \<Rightarrow> Inl AttributeError
           | Some num \<Rightarrow>
               (case find (\<lambda>r. t_skip r = ''SCP-'' @ num) (db_titles sn) of
                  Some r \<Rightarrow> Inr (t_title r)
                | None \<Rightarrow> Inl TitleDoesNotExist)))"

section \<open>Selectors used by the page model\<close>

definition by_tag :: "string \<Rightarrow> comb \<times> compound" where
  "by_tag t = (Descendant, \<lparr>sel_name = Some t, sel_id = None, sel_classes = []\<rparr>)"

definition by_id :: "string \<Rightarrow> comb \<times> compound" where
  "by_id i = (Descendant, \<lparr>sel_name = None, sel_id = Some i, sel_classes = []\<rparr>)"

definition by_class :: "string \<Rightarrow> string \<Rightarrow> comb \<times> compound" where
  "by_class t c = (Descendant, \<lparr>sel_name = Some t, sel_id = None, sel_classes = [c]\<rparr>)"

definition child_tag :: "string \<Rightarrow> comb \<times> compound" where
  "child_tag t = (Child, \<lparr>sel_name = Some t, sel_id = None, sel_classes = []\<rparr>)"

section \<open>Metadata\<close>

text \<open>
  The comment count as \<open>_parse_html\<close> stores it. The \<open>try\<close> branch stores the matched
  text, a \<open>str\<close>; the bare \<open>except\<close> stores the \<open>int\<close> 0.
\<close>

datatype pyvalue = PyStr string | PyInt int

definition parse_comments :: "node \<Rightarrow> pyvalue" where
  "parse_comments soup =
     (case select soup [by_id ''discuss-button''] of
        [] \<Rightarrow> PyInt 0
      | b # _ \<Rightarrow>
          (case re_digits (get_text b) of
             None \<Rightarrow> PyInt 0
           | Some comments \<Rightarrow> PyStr comments))"

definition parse_rating :: "node \<Rightarrow> string option" where
  "parse_rating soup =
     (case select soup [by_id ''pagerate-button'', by_tag ''span''] of
        [] \<Rightarrow> None
      | r # _ \<Rightarrow> Some (get_text r))"

definition parse_tags :: "node \<Rightarrow> string option list" where
  "parse_tags soup = map tag_string (select soup [by_class ''div'' ''page-tags'', by_tag ''a''])"

definition has_tag :: "string option list \<Rightarrow> string \<Rightarrow> bool" where
  "has_tag tags t = (Some t \<in> set tags)"

definition parse_title :: "snapshot \<Rightarrow> url \<Rightarrow> string option list \<Rightarrow> node \<Rightarrow> error + string" where
  "parse_title sn u tags soup =
     (let title = (case select soup [by_id ''page-title''] of
                     [] \<Rightarrow> []
                   | t # _ \<Rightarrow> strip (get_text t))
      in if has_tag tags ''scp'' \<and> re_scp_url u
         then (case sn_title sn u of
                 Inl e \<Rightarrow> Inl e
               | Inr t \<Rightarrow> Inr (title @ '': '' @ t))
         else Inr title)"

section \<open>Links\<close>

text \<open>
  The loop of \<open>Page.links\<close> over the anchors of the content region. \<open>a["href"][0]\<close>
  raises IndexError on an empty href. The parser gives \<open>href\<close> a string value; a list
  there (which only \<open>class\<close>-like attributes get) is answered with TypeError.
\<close>

definition image_exts :: "string list" where
  "image_exts = [''.png'', ''.jpg'', ''.gif'']"

fun links_loop :: "node list \<Rightarrow> url list \<Rightarrow> error + url list" where
  "links_loop [] links = Inr links"
| "links_loop (a # as) links =
     (case map_of (node_attrs a) ''href'' of
        None \<Rightarrow> links_loop as links
      | Some (AList _) \<Rightarrow> Inl TypeError
      | Some (AStr href) \<Rightarrow>
          (case href of
             [] \<Rightarrow> Inl IndexError
           | c # _ \<Rightarrow>
               if c \<noteq> CHR ''/'' then links_loop as links
               else if last4 href \<in> set image_exts then links_loop as links
               else (let u = rstrip_chars ''|'' (site @ href)
                     in if u \<in> set links then links_loop as links
                        else links_loop as (links @ [u]))))"

definition links :: "node option \<Rightarrow> error + url list" where
  "links raw_html =
     (case raw_html of
        None \<Rightarrow> Inr []
      | Some soup \<Rightarrow> links_loop (select soup [by_id ''page-content'', by_tag ''a'']) [])"

section \<open>Content transformation\<close>

subsection \<open>Attribute access\<close>

text \<open>\<open>tag[key] = value\<close> keeps the position of a key already present; \<open>del tag[key]\<close>.\<close>

fun set_attr :: "string \<Rightarrow> attr_value \<Rightarrow> attrs \<Rightarrow> attrs" where
  "set_attr k v [] = [(k, v)]"
| "set_attr k v (p # ps) = (if fst p = k then (k, v) # ps else p # set_attr k v ps)"

definition del_attr :: "string \<Rightarrow> attrs \<Rightarrow> attrs" where
  "del_attr k a = filter (\<lambda>p. fst p \<noteq> k) a"

text \<open>Python's \<open>x in value\<close>: membership in a list, substring of a string.\<close>

fun is_substr :: "string \<Rightarrow> string \<Rightarrow> bool" where
  "is_substr s [] = (s = [])"
| "is_substr s (c # cs) = (take (length s) (c # cs) = s \<or> is_substr s cs)"

fun py_in :: "string \<Rightarrow> attr_value \<Rightarrow> bool" where
  "py_in s (AList cs) = (s \<in> set cs)"
| "py_in s (AStr t) = is_substr s t"

subsection \<open>Rating widget\<close>

text \<open>
  \<open>for i in data.select("div.page-rate-widget-box"): i.decompose()\<close>: every such
  element below the content element goes, with all it contains.
\<close>

fun drop_matching :: "compound \<Rightarrow> node \<Rightarrow> node" where
  "drop_matching c (Elem nm a cs) =
     Elem nm a (map (drop_matching c) (filter (\<lambda>n. \<not> matches c n) cs))"
| "drop_matching c n = n"

definition remove_rate_widgets :: "node \<Rightarrow> node" where
  "remove_rate_widgets data = drop_matching (snd (by_class ''div'' ''page-rate-widget-box'')) data"

subsection \<open>Tab views\<close>

text \<open>
  \<open>Tag.__eq__\<close>: two tags are equal when they have the same name, the same attribute
  dictionary and pairwise equal children; strings compare as strings; a string never
  equals a tag.
\<close>

fun tag_eq :: "node \<Rightarrow> node \<Rightarrow> bool"
  and tag_eq_list :: "node list \<Rightarrow> node list \<Rightarrow> bool" where
  "tag_eq (Text s) (Text t) = (s = t)"
| "tag_eq (Elem n a cs) (Elem m b ds) = (n = m \<and> set a = set b \<and> tag_eq_list cs ds)"
| "tag_eq Gone Gone = True"
| "tag_eq _ _ = False"
| "tag_eq_list [] [] = True"
| "tag_eq_list (c # cs) (d # ds) = (tag_eq c d \<and> tag_eq_list cs ds)"
| "tag_eq_list _ _ = False"

text \<open>\<open>list.index(x)\<close>: the first position holding an element equal to \<open>x\<close>.\<close>

fun index_of :: "(node \<Rightarrow> bool) \<Rightarrow> node list \<Rightarrow> nat option" where
  "index_of P [] = None"
| "index_of P (x # xs) =
     (if P x then Some 0 else (case index_of P xs of None \<Rightarrow> None | Some i \<Rightarrow> Some (Suc i)))"

text \<open>
  \<open>soup.new_tag("div", **{"class": cls})\<close>: the new tag is made through the parser's
  builder, which stores the class as a list, as it does for parsed markup.
\<close>

definition new_div :: "string \<Rightarrow> node list \<Rightarrow> node" where
  "new_div cls cs = Elem ''div'' [(''class'', AList [cls])] cs"

fun with_attrs :: "attrs \<Rightarrow> node \<Rightarrow> node" where
  "with_attrs a (Elem nm _ cs) = Elem nm a cs"
| "with_attrs a n = n"

fun insert_first :: "node \<Rightarrow> node \<Rightarrow> node" where
  "insert_first t (Elem nm a cs) = Elem nm a (t # cs)"
| "insert_first t n = n"

text \<open>
  The inner loop of \<open>_parse_tabviews\<close> over the tab blocks of one container. The blocks
  are objects that the loop changes in place, so the list \<open>tabs\<close> it searches holds the
  blocks as they are at that moment: \<open>done\<close> are the blocks already given their class
  and title, then the block \<open>k\<close> in hand, whose attributes were replaced just before
  \<open>tabs.index(k)\<close> is evaluated, then the untouched rest. \<open>titles[...]\<close> raises
  IndexError beyond the last title. The result is the children of the wrapper.
\<close>

fun tabs_loop :: "string list \<Rightarrow> node list \<Rightarrow> node list \<Rightarrow> error + node list" where
  "tabs_loop titles done [] = Inr done"
| "tabs_loop titles done (t # todo) =
     (let k = with_attrs [(''class'', AStr ''tabview-tab'')] t
      in case index_of (\<lambda>x. tag_eq x k) (done @ k # todo) of
           None \<Rightarrow> Inl ValueError
         | Some idx \<Rightarrow>
             if idx < length titles
             then tabs_loop titles (done @ [insert_first (new_div ''tab-title'' [Text (titles ! idx)]) k]) todo
             else Inl IndexError)"

definition tab_titles :: "node \<Rightarrow> string list" where
  "tab_titles i = map get_text (select i [by_class ''ul'' ''yui-nav'', by_tag ''em''])"

definition tab_blocks :: "node \<Rightarrow> node list" where
  "tab_blocks i = select i [by_class ''div'' ''yui-content'', child_tag ''div'']"

definition parse_tabview :: "node \<Rightarrow> error + node" where
  "parse_tabview i =
     (case tabs_loop (tab_titles i) [] (tab_blocks i) of
        Inl e \<Rightarrow> Inl e
      | Inr tabs \<Rightarrow> Inr (new_div ''tabview'' tabs))"

text \<open>
  \<open>_parse_tabviews\<close>: every \<open>div.yui-navset\<close> below the content element is replaced by
  its wrapper, in document order, the first failure ending the pass. The tab blocks of a
  container are taken to lie side by side: a tab view inside a tab of another one, whose
  blocks the source would move into the outer wrapper as well, is outside this model.
\<close>

fun tabviews_in :: "node \<Rightarrow> error + node"
  and tabviews_list :: "node list \<Rightarrow> error + node list" where
  "tabviews_in (Elem nm a cs) =
     (if matches (snd (by_class ''div'' ''yui-navset'')) (Elem nm a cs)
      then parse_tabview (Elem nm a cs)
      else (case tabviews_list cs of Inl e \<Rightarrow> Inl e | Inr cs' \<Rightarrow> Inr (Elem nm a cs')))"
| "tabviews_in n = Inr n"
| "tabviews_list [] = Inr []"
| "tabviews_list (c # cs) =
     (case tabviews_in c of
        Inl e \<Rightarrow> Inl e
      | Inr c' \<Rightarrow> (case tabviews_list cs of Inl e \<Rightarrow> Inl e | Inr cs' \<Rightarrow> Inr (c' # cs')))"

fun parse_tabviews :: "node \<Rightarrow> error + node" where
  "parse_tabviews (Elem nm a cs) =
     (case tabviews_list cs of Inl e \<Rightarrow> Inl e | Inr cs' \<Rightarrow> Inr (Elem nm a cs'))"
| "parse_tabviews n = Inr n"

subsection \<open>Tab blocks and titles\<close>

text \<open>
  \<open>tab_of\<close> is a tab block with its new class and with a title in front. A node is a
  title div when it equals, as tags are compared, a title that the loop makes; a block
  is \<open>untitled\<close> when its content does not begin with such a div.
\<close>

definition tab_of :: "string \<Rightarrow> node \<Rightarrow> node" where
  "tab_of title t =
     insert_first (new_div ''tab-title'' [Text title]) (with_attrs [(''class'', AStr ''tabview-tab'')] t)"

definition is_title_div :: "node \<Rightarrow> bool" where
  "is_title_div c =
     (case c of
        Elem nm a [Text x] \<Rightarrow> tag_eq (new_div ''tab-title'' [Text x]) c
      | _ \<Rightarrow> False)"

definition untitled :: "node \<Rightarrow> bool" where
  "untitled t = (case contents t of [] \<Rightarrow> True | c # cs \<Rightarrow> \<not> is_title_div c)"

text \<open>A tab block that already has its title, as the loop leaves it.\<close>

definition titled :: "node \<Rightarrow> bool" where
  "titled d = (\<exists>nm a x cs. d = Elem nm a (new_div ''tab-title'' [Text x] # cs))"

subsection \<open>Collapsible blocks\<close>

fun remove_at :: "path \<Rightarrow> node \<Rightarrow> node" where
  "remove_at [] n = n"
| "remove_at [i] (Elem nm a cs) = Elem nm a (take i cs @ drop (Suc i) cs)"
| "remove_at (i # p) (Elem nm a cs) =
     (if i < length cs then Elem nm a (cs[i := remove_at p (cs ! i)]) else Elem nm a cs)"
| "remove_at (i # p) n = n"

fun map_attrs :: "(attrs \<Rightarrow> attrs) \<Rightarrow> node \<Rightarrow> node" where
  "map_attrs f (Elem nm a cs) = Elem nm (f a) cs"
| "map_attrs f n = n"

text \<open>
  The unfolded shape: the block's \<open>div.collapsible-block-unfolded\<close> loses its style, its
  first content element and its first unfolded-link element; each \<open>[0]\<close> raises
  IndexError when the selection is empty.
\<close>

definition unfolded_content :: "node \<Rightarrow> error + node" where
  "unfolded_content i =
     (case select i [by_class ''div'' ''collapsible-block-unfolded''] of
        [] \<Rightarrow> Inl IndexError
      | u # _ \<Rightarrow>
          (let u1 = map_attrs (del_attr ''style'') u
           in case select_paths u1 [] [by_class ''div'' ''collapsible-block-content''] of
                [] \<Rightarrow> Inl IndexError
              | p # _ \<Rightarrow>
                  (let u2 = remove_at p u1
                   in case select_paths u2 [] [by_class ''div'' ''collapsible-block-unfolded-link''] of
                        [] \<Rightarrow> Inl IndexError
                      | q # _ \<Rightarrow> Inr (remove_at q u2))))"

text \<open>
  One block of \<open>_parse_collapsibles\<close>: the text of its first link, its first content
  element (or the unfolded shape when that element has no text), wrapped with a title.
\<close>

definition collapse :: "node \<Rightarrow> error + node" where
  "collapse i =
     (case select i [by_class ''a'' ''collapsible-block-link''] of
        [] \<Rightarrow> Inl IndexError
      | l # _ \<Rightarrow>
          (case select i [by_class ''div'' ''collapsible-block-content''] of
             [] \<Rightarrow> Inl IndexError
           | c # _ \<Rightarrow>
               (case (if get_text c = [] then unfolded_content i else Inr c) of
                  Inl e \<Rightarrow> Inl e
                | Inr content \<Rightarrow>
                    Inr (new_div ''collapsible''
                           [new_div ''collaps-title'' [Text (get_text l)],
                            map_attrs (set_attr ''class'' (AStr ''collaps-content'')) content]))))"

text \<open>
  \<open>_parse_collapsibles\<close> visits the blocks selected at the start in document order and
  replaces each by its wrapper; a block inside the kept content is rewritten later, where
  it then stands. The model takes, as many times as there were blocks, the first block
  still in the tree. A block inside a part the source throws away is visited there after
  it left the tree; the model does not visit it.
\<close>

fun collapsibles_loop :: "nat \<Rightarrow> node \<Rightarrow> error + node" where
  "collapsibles_loop 0 data = Inr data"
| "collapsibles_loop (Suc n) data =
     (case select_paths data [] [by_class ''div'' ''collapsible-block''] of
        [] \<Rightarrow> Inr data
      | p # _ \<Rightarrow>
          (case node_at data p of
             None \<Rightarrow> Inr data
           | Some i \<Rightarrow>
               (case collapse i of
                  Inl e \<Rightarrow> Inl e
                | Inr col \<Rightarrow> collapsibles_loop n (update_at p (\<lambda>_. col) data))))"

definition parse_collapsibles :: "node \<Rightarrow> error + node" where
  "parse_collapsibles data =
     collapsibles_loop (length (select_paths data [] [by_class ''div'' ''collapsible-block''])) data"

subsection \<open>Footnotes\<close>

text \<open>
  First loop of \<open>_parse_footnotes\<close>: \<open>i.string = i.a.string\<close> for every
  \<open>sup.footnoteref\<close>. \<open>i.a\<close> is the first anchor below \<open>i\<close>; without one the access to
  \<open>.string\<close> raises AttributeError, and assigning the \<open>None\<close> that \<open>.string\<close> may
  return raises TypeError. A marker inside a marker is visited after the outer one
  dropped it, so it can only still raise.
\<close>

fun footnoterefs :: "node \<Rightarrow> error + node"
  and footnoterefs_list :: "node list \<Rightarrow> error + node list" where
  "footnoterefs (Elem nm a cs) =
     (if matches (snd (by_class ''sup'' ''footnoteref'')) (Elem nm a cs)
      then (case select (Elem nm a cs) [by_tag ''a''] of
              [] \<Rightarrow> Inl AttributeError
            | l # _ \<Rightarrow>
                (case tag_string l of
                   None \<Rightarrow> Inl TypeError
                 | Some s \<Rightarrow>
                     (case footnoterefs_list cs of
                        Inl e \<Rightarrow> Inl e
                      | Inr _ \<Rightarrow> Inr (Elem nm a [Text s]))))
      else (case footnoterefs_list cs of Inl e \<Rightarrow> Inl e | Inr cs' \<Rightarrow> Inr (Elem nm a cs')))"
| "footnoterefs n = Inr n"
| "footnoterefs_list [] = Inr []"
| "footnoterefs_list (c # cs) =
     (case footnoterefs c of
        Inl e \<Rightarrow> Inl e
      | Inr c' \<Rightarrow> (case footnoterefs_list cs of Inl e \<Rightarrow> Inl e | Inr cs' \<Rightarrow> Inr (c' # cs')))"

text \<open>
  Second loop: every \<open>sup.footnote-footer\<close> gets the class \<open>footnote\<close>, loses its id and
  keeps only the text below it, as one string.
\<close>

fun footnote_footers :: "node \<Rightarrow> node" where
  "footnote_footers (Elem nm a cs) =
     (if matches (snd (by_class ''sup'' ''footnote-footer'')) (Elem nm a cs)
      then Elem nm (del_attr ''id'' (set_attr ''class'' (AStr ''footnote'') a))
             [Text (get_text (Elem nm a cs))]
      else Elem nm a (map footnote_footers cs))"
| "footnote_footers n = n"

fun with_children :: "node list \<Rightarrow> node \<Rightarrow> node" where
  "with_children cs (Elem nm a _) = Elem nm a cs"
| "with_children cs n = n"

fun below :: "(node \<Rightarrow> node) \<Rightarrow> node \<Rightarrow> node" where
  "below f (Elem nm a cs) = Elem nm a (map f cs)"
| "below f n = n"

definition parse_footnotes :: "node \<Rightarrow> error + node" where
  "parse_footnotes data =
     (case footnoterefs_list (contents data) of
        Inl e \<Rightarrow> Inl e
      | Inr cs \<Rightarrow> Inr (below footnote_footers (with_children cs data)))"

subsection \<open>Links and quotes\<close>

text \<open>
  \<open>_parse_links\<close>: every anchor loses its href and becomes \<open>span\<close> with class \<open>link\<close>.
  \<open>_parse_quotes\<close>: every \<open>blockquote\<close> becomes \<open>div\<close> with class \<open>quote\<close>.
\<close>

fun links_pass :: "node \<Rightarrow> node" where
  "links_pass (Elem nm a cs) =
     (if nm = ''a''
      then Elem ''span'' (set_attr ''class'' (AStr ''link'') (del_attr ''href'' a)) (map links_pass cs)
      else Elem nm a (map links_pass cs))"
| "links_pass n = n"

definition parse_links :: "node \<Rightarrow> node" where
  "parse_links data = below links_pass data"

fun quotes_pass :: "node \<Rightarrow> node" where
  "quotes_pass (Elem nm a cs) =
     (if nm = ''blockquote''
      then Elem ''div'' (set_attr ''class'' (AStr ''quote'') a) (map quotes_pass cs)
      else Elem nm a (map quotes_pass cs))"
| "quotes_pass n = n"

definition parse_quotes :: "node \<Rightarrow> node" where
  "parse_quotes data = below quotes_pass data"

subsection \<open>Images\<close>

text \<open>
  \<open>i.parents\<close>: the ancestors of the node at a path, nearest first, up to the root of
  the document (the content element is still part of its document).
\<close>

definition parents_of :: "path \<Rightarrow> path list" where
  "parents_of p = map (\<lambda>n. take n p) (rev [0 ..< length p])"

definition old_style :: "node \<Rightarrow> path \<Rightarrow> bool" where
  "old_style doc p =
     (select_paths doc p [by_tag ''table'', by_tag ''tr'', by_tag ''td'', by_tag ''img''] \<noteq> []
      \<and> length (select_paths doc p [by_tag ''table'', by_tag ''tr'', by_tag ''td'']) = 1)"

definition new_style :: "node \<Rightarrow> path \<Rightarrow> bool" where
  "new_style doc p =
     (case node_at doc p of
        None \<Rightarrow> False
      | Some n \<Rightarrow>
          (case map_of (node_attrs n) ''class'' of
             None \<Rightarrow> False
           | Some v \<Rightarrow> py_in ''scp-image-block'' v))"

definition find_wrapper :: "node \<Rightarrow> path \<Rightarrow> path option" where
  "find_wrapper doc ip = find (\<lambda>p. old_style doc p \<or> new_style doc p) (parents_of ip)"

definition decompose :: "path \<Rightarrow> node \<Rightarrow> node" where
  "decompose p doc = update_at p (\<lambda>_. Gone) doc"

text \<open>\<open>i["src"]\<close>, when the image has the attribute, and \<open>i["src"] = l\<close>.\<close>

definition src_of :: "attrs \<Rightarrow> attr_value option" where
  "src_of a = map_of a ''src''"

definition set_src :: "string \<Rightarrow> attrs \<Rightarrow> attrs" where
  "set_src l a = set_attr ''src'' (AStr l) a"

definition local_path :: "string \<Rightarrow> error + string" where
  "local_path src =
     (case rev (split_on CHR ''/'' src) of
        image_url # page # _ \<Rightarrow> Inr (''images/'' @ page @ ''_'' @ image_url)
      | _ \<Rightarrow> Inl ValueError)"

text \<open>
  The loop of \<open>_parse_images\<close> over the images selected at the start. The state is the
  document and \<open>self.images\<close>. An image destroyed with a wrapper removed earlier has no
  name any more and is skipped, as is an image without \<open>src\<close>. Unpacking the last two
  segments of a catalogued url raises ValueError when the url has no slash; looking up a
  list in the catalog raises TypeError.
\<close>

fun images_loop :: "url list \<Rightarrow> path list \<Rightarrow> node \<times> url list \<Rightarrow> error + node \<times> url list" where
  "images_loop catalog [] st = Inr st"
| "images_loop catalog (ip # ips) (doc, imgs) =
     (case node_at doc ip of
        Some (Elem nm a cs) \<Rightarrow>
          (case src_of a of
             None \<Rightarrow> images_loop catalog ips (doc, imgs)
           | Some (AList _) \<Rightarrow> Inl TypeError
           | Some (AStr src) \<Rightarrow>
               if src \<notin> set catalog
               then (case find_wrapper doc ip of
                       Some p \<Rightarrow> images_loop catalog ips (decompose p doc, imgs)
                     | None \<Rightarrow> images_loop catalog ips (decompose ip doc, imgs))
               else (case local_path src of
                       Inl e \<Rightarrow> Inl e
                     | Inr l \<Rightarrow>
                         images_loop catalog ips (update_at ip (map_attrs (set_src l)) doc, imgs @ [src])))
      | _ \<Rightarrow> images_loop catalog ips (doc, imgs))"

definition parse_images :: "url list \<Rightarrow> node \<Rightarrow> path \<Rightarrow> error + node \<times> url list" where
  "parse_images catalog doc cp = images_loop catalog (select_paths doc cp [by_tag ''img'']) (doc, [])"

text \<open>The name and attributes of the element at a path, if an element is there.\<close>

definition elem_at :: "node \<Rightarrow> path \<Rightarrow> (string \<times> attrs) option" where
  "elem_at doc q = (case node_at doc q of Some (Elem nm a cs) \<Rightarrow> Some (nm, a) | _ \<Rightarrow> None)"

text \<open>
  For the proofs about the image pass. \<open>resolved\<close>: a source is the local path of a
  catalogued url that has been recorded. \<open>img_step\<close>: what one iteration of the loop
  does to the document and to the recorded urls, for the image at \<open>ip\<close>.
\<close>

definition resolved :: "url list \<Rightarrow> url list \<Rightarrow> attr_value \<Rightarrow> bool" where
  "resolved catalog imgs v =
     (\<exists>u \<in> set imgs. u \<in> set catalog \<and> (\<exists>l. local_path u = Inr l \<and> v = AStr l))"

inductive img_step :: "url list \<Rightarrow> path \<Rightarrow> node \<times> url list \<Rightarrow> node \<times> url list \<Rightarrow> bool"
  for catalog :: "url list" and ip :: path where
  skipped: "elem_at doc ip = None \<Longrightarrow> img_step catalog ip (doc, imgs) (doc, imgs)"
| no_src: "elem_at doc ip = Some (nm, a) \<Longrightarrow> src_of a = None \<Longrightarrow>
           img_step catalog ip (doc, imgs) (doc, imgs)"
| removed: "ip = p @ r \<Longrightarrow> node_at doc ip \<noteq> None \<Longrightarrow>
            img_step catalog ip (doc, imgs) (decompose p doc, imgs)"
| rewritten: "elem_at doc ip = Some (nm, a) \<Longrightarrow> src \<in> set catalog \<Longrightarrow> local_path src = Inr l \<Longrightarrow>
              img_step catalog ip (doc, imgs) (update_at ip (map_attrs (set_src l)) doc, imgs @ [src])"

subsection \<open>The content of a page\<close>

definition and_then :: "error + 'a \<Rightarrow> ('a \<Rightarrow> error + 'b) \<Rightarrow> error + 'b" where
  "and_then r f = (case r of Inl e \<Rightarrow> Inl e | Inr x \<Rightarrow> f x)"

text \<open>
  \<open>_parse_body\<close>: \<open>self.data\<close> and \<open>self.images\<close>. Without a \<open>#page-content\<close> element
  the data is \<open>None\<close>. The passes before the images work below the content element; the
  image pass looks at its ancestors too. When that pass removed a wrapper that holds the
  content element itself, \<open>str(data)\<close> finds a destroyed tag and raises AttributeError.
\<close>

definition parse_body :: "url list \<Rightarrow> node \<Rightarrow> error + string option \<times> url list" where
  "parse_body catalog soup =
     (case select_paths soup [] [by_id ''page-content''] of
        [] \<Rightarrow> Inr (None, [])
      | cp # _ \<Rightarrow>
          (case node_at soup cp of
             None \<Rightarrow> Inr (None, [])
           | Some data \<Rightarrow>
               and_then (parse_tabviews (remove_rate_widgets data)) (\<lambda>d1.
               and_then (parse_collapsibles d1) (\<lambda>d2.
               and_then (parse_footnotes d2) (\<lambda>d3.
               and_then (parse_images catalog
                           (update_at cp (\<lambda>_. parse_quotes (parse_links d3)) soup) cp)
                 (\<lambda>(doc, imgs).
                    case node_at doc cp of
                      Some (Elem nm a cs) \<Rightarrow> Inr (Some (render (Elem nm a cs)), imgs)
                    | _ \<Rightarrow> Inl AttributeError))))))"

text \<open>
  What \<open>_parse_html\<close> computes: rating, comments, data, images, tags and title. The last
  statement formats title and data into the title paragraph whatever \<open>_parse_body\<close>
  left in \<open>self.data\<close>; \<open>format\<close> writes \<open>None\<close> as the text \<open>None\<close>.
\<close>

record parsed_html =
  ph_rating :: "string option"
  ph_comments :: pyvalue
  ph_data :: "string option"
  ph_images :: "url list"
  ph_tags :: "string option list"
  ph_title :: string

definition py_format :: "string option \<Rightarrow> string" where
  "py_format v = (case v of None \<Rightarrow> ''None'' | Some s \<Rightarrow> s)"

definition title_insert :: "string option list \<Rightarrow> string \<Rightarrow> string option \<Rightarrow> string" where
  "title_insert tags title data =
     (if has_tag tags ''scp''
      then ''<p class='' @ [CHR 0x27] @ ''scp-title'' @ [CHR 0x27] @ ''>'' @ title @ ''</p>'' @ py_format data
      else ''<p class='' @ [CHR 0x27] @ ''tale-title'' @ [CHR 0x27] @ ''>'' @ title @ ''</p>'' @ py_format data)"

definition parse_html :: "snapshot \<Rightarrow> url \<Rightarrow> node \<Rightarrow> error + parsed_html" where
  "parse_html sn u soup =
     and_then (parse_body (db_images sn) soup) (\<lambda>(data, imgs).
       let tags = parse_tags soup
       in and_then (parse_title sn u tags soup) (\<lambda>title.
            Inr \<lparr>ph_rating = parse_rating soup,
                 ph_comments = parse_comments soup,
                 ph_data = Some (title_insert tags title data),
                 ph_images = imgs,
                 ph_tags = tags,
                 ph_title = title\<rparr>))"

section \<open>History and votes\<close>

definition py_nth :: "'a list \<Rightarrow> nat \<Rightarrow> error + 'a" where
  "py_nth xs i = (if i < length xs then Inr (xs ! i) else Inl IndexError)"

text \<open>\<open>int(s)\<close>: optional white space, an optional sign, decimal digits; else ValueError.\<close>

definition nat_of_digits :: "string \<Rightarrow> nat" where
  "nat_of_digits s = foldl (\<lambda>n c. 10 * n + (of_char c - 48)) 0 s"

definition py_int :: "string \<Rightarrow> error + int" where
  "py_int s =
     (let t = strip s;
          neg = (t \<noteq> [] \<and> hd t = CHR ''-'');
          d = (if t \<noteq> [] \<and> hd t \<in> set ''+-'' then tl t else t)
      in if d \<noteq> [] \<and> list_all is_digit d
         then Inr (if neg then - int (nat_of_digits d) else int (nat_of_digits d))
         else Inl ValueError)"

text \<open>
  One row of the history table in \<open>_parse_history\<close>; the cells are read in the order
  0, 4, 5, 6, each raising IndexError when the row is too short.
\<close>

definition parse_revision :: "(string \<Rightarrow> string option) \<Rightarrow> node \<Rightarrow> error + revision" where
  "parse_revision fmt i =
     (let rev_data = select i [by_tag ''td'']
      in and_then (py_nth rev_data 0) (\<lambda>c0.
         and_then (py_int (strip_chars ''.'' (get_text c0))) (\<lambda>number.
         and_then (py_nth rev_data 4) (\<lambda>c4.
         and_then (py_nth rev_data 5) (\<lambda>c5.
         and_then (case fmt (get_text c5) of None \<Rightarrow> Inl ParserError | Some t \<Rightarrow> Inr t) (\<lambda>time.
         and_then (py_nth rev_data 6) (\<lambda>c6.
           Inr \<lparr>rev_number = number, rev_user = get_text c4,
                rev_time = time, rev_comment = get_text c6\<rparr>)))))))"

fun parse_revisions :: "(string \<Rightarrow> string option) \<Rightarrow> node list \<Rightarrow> error + revision list" where
  "parse_revisions fmt [] = Inr []"
| "parse_revisions fmt (i # is) =
     and_then (parse_revision fmt i) (\<lambda>r.
     and_then (parse_revisions fmt is) (\<lambda>rs. Inr (r # rs)))"

text \<open>\<open>_parse_history\<close>: the rows after the header, newest first in the markup, reversed.\<close>

definition parse_history :: "(string \<Rightarrow> string option) \<Rightarrow> node \<Rightarrow> error + revision list" where
  "parse_history fmt soup =
     and_then (parse_revisions fmt (drop 1 (select soup [by_tag ''tr'']))) (\<lambda>history.
       Inr (rev history))"

record vote_data =
  vote_user :: string
  vote :: string

text \<open>
  \<open>_parse_votes\<close>: for every \<open>span.printuser\<close>, its text and the stripped text of the
  second node after it under the same parent. A missing sibling is \<open>None\<close>, and a
  string has no \<open>text\<close>: both raise AttributeError.
\<close>

definition second_sibling :: "node \<Rightarrow> path \<Rightarrow> error + node" where
  "second_sibling doc p =
     (if p = [] then Inl AttributeError
      else (case node_at doc (butlast p) of
              None \<Rightarrow> Inl AttributeError
            | Some parent \<Rightarrow>
                (if last p + 2 < length (contents parent)
                 then (case contents parent ! (last p + 2) of
                         Elem nm a cs \<Rightarrow> Inr (Elem nm a cs)
                       | _ \<Rightarrow> Inl AttributeError)
                 else Inl AttributeError)))"

fun votes_loop :: "node \<Rightarrow> path list \<Rightarrow> error + vote_data list" where
  "votes_loop doc [] = Inr []"
| "votes_loop doc (p # ps) =
     (case node_at doc p of
        None \<Rightarrow> Inl AttributeError
      | Some i \<Rightarrow>
          and_then (second_sibling doc p) (\<lambda>s.
          and_then (votes_loop doc ps) (\<lambda>vs.
            Inr (\<lparr>vote_user = get_text i, vote = strip (get_text s)\<rparr> # vs))))"

definition parse_votes :: "node \<Rightarrow> error + vote_data list" where
  "parse_votes soup = votes_loop soup (select_paths soup [] [by_class ''span'' ''printuser''])"

section \<open>Pages\<close>

text \<open>
  A \<open>Page\<close> built from a url. \<open>p_children\<close> is the list that \<open>_override\<close> computed and
  bound to \<open>self.children\<close>, when the url has an entry in its table of children.
\<close>

datatype page = Page
  (p_url: url)
  (p_data: "string option")
  (p_rating: "string option")
  (p_images: "url list")
  (p_history: "revision list")
  (p_authors: "author list")
  (p_votes: "vote_data list")
  (p_comments: pyvalue)
  (p_tags: "string option list")
  (p_title: string)
  (p_raw_html: "node option")
  (p_children: "page list option")

definition any_tag :: "string option list \<Rightarrow> string list \<Rightarrow> bool" where
  "any_tag tags ts = (\<exists>t \<in> set ts. has_tag tags t)"

text \<open>
  \<open>backlinks(page, child)\<close> inside \<open>Page.children\<close>: the hub's url is among the child's
  links, or the last anchor of the child's breadcrumbs leads to the hub's url.
  \<open>crumb["href"]\<close> raises KeyError without an href.
\<close>

definition last_crumb :: "node \<Rightarrow> error + url option" where
  "last_crumb soup =
     (case rev (select soup [by_id ''breadcrumbs'', by_tag ''a'']) of
        [] \<Rightarrow> Inr None
      | crumb # _ \<Rightarrow>
          (case map_of (node_attrs crumb) ''href'' of
             None \<Rightarrow> Inl KeyError
           | Some (AList _) \<Rightarrow> Inl TypeError
           | Some (AStr href) \<Rightarrow> Inr (Some (site @ href))))"

definition backlinks :: "url \<Rightarrow> page \<Rightarrow> error + bool" where
  "backlinks hub child =
     and_then (links (p_raw_html child)) (\<lambda>ls.
       if hub \<in> set ls then Inr True
       else (case p_raw_html child of
               None \<Rightarrow> Inl TypeError
             | Some soup \<Rightarrow>
                 and_then (last_crumb soup) (\<lambda>crumb. Inr (crumb = Some hub))))"

text \<open>\<open>any(backlinks(self, p) for p in mpages)\<close> stops at the first confirmed page.\<close>

fun any_backlinks :: "url \<Rightarrow> page list \<Rightarrow> error + bool" where
  "any_backlinks hub [] = Inr False"
| "any_backlinks hub (p # ps) =
     and_then (backlinks hub p) (\<lambda>b. if b then Inr True else any_backlinks hub ps)"

fun filter_backlinks :: "url \<Rightarrow> page list \<Rightarrow> error + page list" where
  "filter_backlinks hub [] = Inr []"
| "filter_backlinks hub (p # ps) =
     and_then (backlinks hub p) (\<lambda>b.
     and_then (filter_backlinks hub ps) (\<lambda>qs. Inr (if b then p # qs else qs)))"

text \<open>The part of \<open>Page.children\<close> after the linked pages have been built.\<close>

definition select_children :: "url \<Rightarrow> string option list \<Rightarrow> page list \<Rightarrow> error + page list" where
  "select_children u tags lpages =
     (if any_tag tags [''scp'', ''splash'']
      then Inr (filter (\<lambda>i. any_tag (p_tags i) [''supplement'', ''splash'']) lpages)
      else if has_tag tags ''hub'' \<and> any_tag tags [''tale'', ''goi2014'']
      then (let mpages = filter (\<lambda>i. any_tag (p_tags i) [''tale'', ''goi-format'', ''goi2014'']) lpages
            in and_then (any_backlinks u mpages) (\<lambda>b.
                 if b then filter_backlinks u mpages else Inr mpages))
      else Inr [])"

definition scp_url :: "string \<Rightarrow> url" where
  "scp_url partial_url = ''http://www.scp-wiki.net/'' @ partial_url"

text \<open>
  The fields the constructor fills before \<open>_override\<close>: the stored record is parsed,
  history and authors are set when the record has a history, votes when it has votes.
\<close>

definition init_page :: "snapshot \<Rightarrow> url \<Rightarrow> error + page" where
  "init_page sn u =
     and_then (pagedata sn u) (\<lambda>pd.
     and_then (parse_html sn u (pd_html pd)) (\<lambda>ph.
     and_then (case pd_history pd of
                 None \<Rightarrow> Inr ([], [])
               | Some h \<Rightarrow>
                   and_then (parse_history (arrow_format sn) h) (\<lambda>history.
                   and_then (meta_authors (db_rewrites sn) u history) (\<lambda>authors.
                     Inr (history, authors)))) (\<lambda>(history, authors).
     and_then (case pd_votes pd of None \<Rightarrow> Inr [] | Some v \<Rightarrow> parse_votes v) (\<lambda>votes.
       Inr (Page u (ph_data ph) (ph_rating ph) (ph_images ph) history authors votes
            (ph_comments ph) (ph_tags ph) (ph_title ph) (Some (pd_html pd)) None)))))"

definition set_data :: "string option \<Rightarrow> page \<Rightarrow> page" where
  "set_data d p = Page (p_url p) d (p_rating p) (p_images p) (p_history p) (p_authors p)
                       (p_votes p) (p_comments p) (p_tags p) (p_title p) (p_raw_html p) (p_children p)"

definition set_children :: "page list \<Rightarrow> page \<Rightarrow> page" where
  "set_children cs p = Page (p_url p) (p_data p) (p_rating p) (p_images p) (p_history p) (p_authors p)
                       (p_votes p) (p_comments p) (p_tags p) (p_title p) (p_raw_html p) (Some cs)"

definition override_data :: "page \<Rightarrow> page" where
  "override_data p = (if p_url p = scp_url ''scp-1047-j'' then set_data None p else p)"

definition except_url :: "string \<Rightarrow> page list \<Rightarrow> page list" where
  "except_url x cs = filter (\<lambda>c. p_url c \<noteq> scp_url x) cs"

definition keep_with_data :: "page \<Rightarrow> page list \<Rightarrow> page list" where
  "keep_with_data p ps = (if p_data p \<noteq> None then p # ps else ps)"

text \<open>
  The constructor, \<open>_override\<close> and \<open>Page.children\<close> call one another: \<open>children\<close>
  builds a page for every link, and the constructor of a page with an entry in the table
  of children builds its children at once. The first argument after the snapshot bounds
  the depth of nested constructor calls, where the interpreter raises RecursionError.

  \<open>linked_pages\<close> is the loop of \<open>children\<close> over the links: a page whose construction
  raises \<open>DBPage.DoesNotExist\<close> is skipped, any other exception ends the call, and a page
  without data is left out. \<open>range_pages\<close> is the list comprehension of \<open>_inrange\<close>.
\<close>

function new_page :: "snapshot \<Rightarrow> nat \<Rightarrow> url \<Rightarrow> error + page"
  and override :: "snapshot \<Rightarrow> nat \<Rightarrow> page \<Rightarrow> error + page"
  and children_method :: "snapshot \<Rightarrow> nat \<Rightarrow> page \<Rightarrow> error + page list"
  and linked_pages :: "snapshot \<Rightarrow> nat \<Rightarrow> url list \<Rightarrow> error + page list"
  and range_pages :: "snapshot \<Rightarrow> nat \<Rightarrow> url \<Rightarrow> nat list \<Rightarrow> error + page list" where
  "new_page sn 0 u = Inl RecursionError"
| "new_page sn (Suc n) u = and_then (init_page sn u) (\<lambda>p. override sn n p)"
| "override sn n p =
     (let p1 = override_data p
      in if p_url p = scp_url ''scp-2998''
         then and_then (range_pages sn n (p_url p) [2 ..< 11]) (\<lambda>cs. Inr (set_children cs p1))
         else if p_url p = scp_url ''wills-and-ways-hub''
         then and_then (children_method sn n p1) (\<lambda>cs.
                Inr (set_children (except_url ''marshall-carter-and-dark-hub'' cs) p1))
         else if p_url p = scp_url ''serpent-s-hand-hub''
         then and_then (children_method sn n p1) (\<lambda>cs.
                Inr (set_children (except_url ''black-queen-hub'' cs) p1))
         else if p_url p = scp_url ''chicago-spirit-hub''
         then Inr (set_children [] p1)
         else Inr p1)"
| "children_method sn n p =
     (if \<not> any_tag (p_tags p) [''scp'', ''hub'', ''goi2014'', ''splash'']
      then Inr []
      else and_then (links (p_raw_html p)) (\<lambda>ls.
           and_then (linked_pages sn n ls) (\<lambda>lpages.
             select_children (p_url p) (p_tags p) lpages)))"
| "linked_pages sn n [] = Inr []"
| "linked_pages sn n (u # us) =
     (case new_page sn n u of
        Inl e \<Rightarrow> if e = PageDoesNotExist then linked_pages sn n us else Inl e
      | Inr p \<Rightarrow> and_then (linked_pages sn n us) (\<lambda>ps. Inr (keep_with_data p ps)))"
| "range_pages sn n u [] = Inr []"
| "range_pages sn n u (k # ks) =
     and_then (new_page sn n (u @ ''-'' @ digits_of k)) (\<lambda>p.
     and_then (range_pages sn n u ks) (\<lambda>ps. Inr (p # ps)))"
  by pat_completeness auto
termination
  by (relation "inv_image (less_than <*lex*> less_than <*lex*> less_than)
        (\<lambda>x. case x of
           Inl (Inl (sn, n, u)) \<Rightarrow> (n, 0::nat, 0::nat)
         | Inl (Inr (sn, n, p)) \<Rightarrow> (n, 3, 0)
         | Inr (Inl (sn, n, p)) \<Rightarrow> (n, 2, 0)
         | Inr (Inr (Inl (sn, n, us))) \<Rightarrow> (n, 1, length us)
         | Inr (Inr (Inr (sn, n, u, ks))) \<Rightarrow> (n, 1, length ks))") auto


text \<open>
  \<open>page.children()\<close>: the bound list when there is one, else the method of the class.
  (A page built from a url always has its \<open>tags\<close> attribute, so the \<open>hasattr\<close> test
  at the head of the method never returns for it.)
\<close>

definition children :: "snapshot \<Rightarrow> nat \<Rightarrow> page \<Rightarrow> error + page list" where
  "children sn n p = (case p_children p of Some cs \<Rightarrow> Inr cs | None \<Rightarrow> children_method sn n p)"

section \<open>Example documents\<close>

definition document :: "node list \<Rightarrow> node" where
  "document cs = Elem ''[document]'' [] cs"

definition page_content :: "node list \<Rightarrow> node" where
  "page_content cs = Elem ''div'' [(''id'', AStr ''page-content'')] cs"

definition anchor :: "string \<Rightarrow> node" where
  "anchor href = Elem ''a'' [(''href'', AStr href)] []"

definition no_arrow :: "string \<Rightarrow> string option" where
  "no_arrow s = Some s"

text \<open>A stored page with a discussion button and no content region.\<close>

definition bare_html :: node where
  "bare_html = document [Elem ''a'' [(''id'', AStr ''discuss-button'')] [Text ''Discuss (12)'']]"

definition bare_snapshot :: snapshot where
  "bare_snapshot =
     \<lparr>db_pages = [(scp_url ''about'', \<lparr>pd_html = bare_html, pd_history = None, pd_votes = None\<rparr>)],
      db_titles = [], db_images = [], db_rewrites = [], arrow_format = no_arrow\<rparr>"

text \<open>A tab view as the wiki writes it: the list of titles, then the content blocks.\<close>

definition tab_view :: "string list \<Rightarrow> node list \<Rightarrow> node" where
  "tab_view ts bs =
     Elem ''div'' [(''class'', AList [''yui-navset''])]
       [Elem ''ul'' [(''class'', AList [''yui-nav''])]
          (map (\<lambda>t. Elem ''li'' [] [Elem ''a'' [] [Elem ''em'' [] [Text t]]]) ts),
        Elem ''div'' [(''class'', AList [''yui-content''])] bs]"

definition block :: "string \<Rightarrow> node" where
  "block s = Elem ''div'' [] [Text s]"

text \<open>Stored pages: an empty one, one with tags and links, one with a history.\<close>

definition stored :: "node \<Rightarrow> db_page" where
  "stored html = \<lparr>pd_html = html, pd_history = None, pd_votes = None\<rparr>"

definition tagged_html :: "string list \<Rightarrow> string list \<Rightarrow> node" where
  "tagged_html tags hrefs =
     document [page_content (map anchor hrefs),
               Elem ''div'' [(''class'', AList [''page-tags''])] (map (\<lambda>t. Elem ''a'' [] [Text t]) tags)]"

text \<open>The page \<open>scp-2998\<close>, without tags, and the nine pages \<open>scp-2998-2\<close> to \<open>scp-2998-10\<close>.\<close>

definition range_snapshot :: snapshot where
  "range_snapshot =
     \<lparr>db_pages = (scp_url ''scp-2998'', stored (document []))
                  # map (\<lambda>k. (scp_url ''scp-2998'' @ ''-'' @ digits_of k, stored (document []))) [2 ..< 11],
      db_titles = [], db_images = [], db_rewrites = [], arrow_format = no_arrow\<rparr>"

text \<open>Three hubs with an entry in the table of children, and the pages they link to.\<close>

definition hub_snapshot :: snapshot where
  "hub_snapshot =
     \<lparr>db_pages =
        [(scp_url ''wills-and-ways-hub'',
            stored (tagged_html [''hub'', ''tale''] [''/marshall-carter-and-dark-hub'', ''/tale-1''])),
         (scp_url ''serpent-s-hand-hub'',
            stored (tagged_html [''hub'', ''goi2014''] [''/tale-1'', ''/black-queen-hub''])),
         (scp_url ''chicago-spirit-hub'', stored (tagged_html [''hub'', ''tale''] [''/tale-1''])),
         (scp_url ''marshall-carter-and-dark-hub'', stored (tagged_html [''hub'', ''tale''] [])),
         (scp_url ''black-queen-hub'', stored (tagged_html [''hub'', ''tale''] [])),
         (scp_url ''tale-1'', stored (tagged_html [''tale''] []))],
      db_titles = [], db_images = [], db_rewrites = [], arrow_format = no_arrow\<rparr>"

text \<open>A history table with one revision, by alice; rewrites recorded for two urls.\<close>

definition history_html :: node where
  "history_html =
     document [Elem ''table'' []
       [Elem ''tr'' [] [Elem ''td'' [] [Text ''rev.'']],
        Elem ''tr'' []
          [Elem ''td'' [] [Text ''0.''], Elem ''td'' [] [], Elem ''td'' [] [], Elem ''td'' [] [],
           Elem ''td'' [] [Text ''alice''], Elem ''td'' [] [Text ''01 Dec 2014 10:00''],
           Elem ''td'' [] [Text ''created'']]]]"

definition authors_snapshot :: snapshot where
  "authors_snapshot =
     \<lparr>db_pages = map (\<lambda>u. (scp_url u, \<lparr>pd_html = document [], pd_history = Some history_html,
                                          pd_votes = None\<rparr>)) [''one'', ''two'', ''three''],
      db_titles = [], db_images = [],
      db_rewrites = [\<lparr>rw_url = scp_url ''two'', rw_author = ''bob'', rw_override = False\<rparr>,
                     \<lparr>rw_url = scp_url ''three'', rw_author = ''bob'', rw_override = True\<rparr>],
      arrow_format = no_arrow\<rparr>"

text \<open>
  A hub that links to four tales: \<open>b\<close> links back to it and the breadcrumbs of \<open>d\<close> end at
  it, \<open>a\<close> and \<open>c\<close> do neither. A second hub links to \<open>a\<close> and \<open>c\<close> only. A third one
  carries the tag \<open>scp\<close> as well and links to \<open>b\<close>.
\<close>

definition crumbed_html :: "string list \<Rightarrow> string list \<Rightarrow> string list \<Rightarrow> node" where
  "crumbed_html tags hrefs crumbs =
     document [Elem ''div'' [(''id'', AStr ''breadcrumbs'')] (map anchor crumbs),
               page_content (map anchor hrefs),
               Elem ''div'' [(''class'', AList [''page-tags''])] (map (\<lambda>t. Elem ''a'' [] [Text t]) tags)]"

definition backlink_snapshot :: snapshot where
  "backlink_snapshot =
     \<lparr>db_pages =
        [(scp_url ''some-hub'', stored (tagged_html [''hub'', ''tale''] [''/a'', ''/b'', ''/c'', ''/d''])),
         (scp_url ''lone-hub'', stored (tagged_html [''hub'', ''goi2014''] [''/a'', ''/c''])),
         (scp_url ''series-hub'', stored (tagged_html [''hub'', ''tale'', ''scp''] [''/b''])),
         (scp_url ''a'', stored (tagged_html [''tale''] [])),
         (scp_url ''b'', stored (tagged_html [''tale''] [''/some-hub'', ''/series-hub''])),
         (scp_url ''c'', stored (crumbed_html [''goi-format''] [] [''/some-hub'', ''/elsewhere''])),
         (scp_url ''d'', stored (crumbed_html [''tale''] [] [''/elsewhere'', ''/some-hub'']))],
      db_titles = [], db_images = [], db_rewrites = [], arrow_format = no_arrow\<rparr>"

section \<open>Theorems\<close>

subsection \<open>Selection and tab views\<close>

lemma tag_eq_list_refl: "(\<And>c. c \<in> set cs \<Longrightarrow> tag_eq c c) \<Longrightarrow> tag_eq_list cs cs"
  by (induction cs) auto

lemma tag_eq_refl: "tag_eq n n"
  by (induction n) (auto intro: tag_eq_list_refl)

lemma index_of_le:
  "P k \<Longrightarrow> \<exists>i. index_of P (xs @ k # ys) = Some i \<and> i \<le> length xs"
  by (induction xs) (auto split: option.splits)

lemma index_of_own:
  "P k \<Longrightarrow> \<forall>d \<in> set xs. \<not> P d \<Longrightarrow> index_of P (xs @ k # ys) = Some (length xs)"
  by (induction xs) auto

lemma titled_tab_of: "is_elem t \<Longrightarrow> titled (tab_of x t)"
  by (cases t) (auto simp: titled_def tab_of_def)

lemma tag_eq_Text: "tag_eq (Text x) c \<longleftrightarrow> c = Text x"
  by (cases c) auto

lemma tag_eq_list_Nil: "tag_eq_list [] cs \<longleftrightarrow> cs = []"
  by (cases cs) auto

lemma tag_eq_title:
  assumes "tag_eq (new_div ''tab-title'' [Text x]) c"
  shows "is_title_div c"
proof -
  from assms obtain nm a cs where c: "c = Elem nm a cs" by (cases c) (auto simp: new_div_def)
  with assms have "tag_eq_list [Text x] cs" by (simp add: new_div_def)
  then have "cs = [Text x]"
    by (cases cs) (auto simp: tag_eq_Text tag_eq_list_Nil)
  with c assms show ?thesis by (simp add: is_title_div_def)
qed

lemma titled_neq:
  assumes "titled d" "untitled t"
  shows "\<not> tag_eq d (with_attrs a t)"
proof (cases t)
  case (Elem nm b cs)
  from assms(1) obtain nm' a' x ds where d: "d = Elem nm' a' (new_div ''tab-title'' [Text x] # ds)"
    by (auto simp: titled_def)
  show ?thesis
  proof
    assume eq: "tag_eq d (with_attrs a t)"
    then obtain c cs' where cs: "cs = c # cs'" and c: "tag_eq (new_div ''tab-title'' [Text x]) c"
      using d Elem by (cases cs) auto
    from tag_eq_title[OF c] assms(2) Elem cs show False by (simp add: untitled_def)
  qed
next
  case (Text s) with assms show ?thesis by (auto simp: titled_def)
next
  case Gone with assms show ?thesis by (auto simp: titled_def)
qed

lemma tabs_loop_ok:
  "length done + length todo \<le> length titles \<Longrightarrow>
   \<exists>r. tabs_loop titles done todo = Inr r \<and> length r = length done + length todo"
proof (induction todo arbitrary: "done")
  case Nil
  then show ?case by simp
next
  case (Cons t todo)
  let ?k = "with_attrs [(''class'', AStr ''tabview-tab'')] t"
  obtain i where i: "index_of (\<lambda>x. tag_eq x ?k) (done @ ?k # todo) = Some i" "i \<le> length done"
    using index_of_le[of "\<lambda>x. tag_eq x ?k" ?k "done" todo] tag_eq_refl by blast
  with Cons.prems have lt: "i < length titles" by simp
  have "length (done @ [insert_first (new_div ''tab-title'' [Text (titles ! i)]) ?k]) + length todo \<le> length titles"
    using Cons.prems by simp
  from Cons.IH[OF this] i lt show ?case by (simp add: Let_def)
qed


lemma tabs_loop_short:
  assumes "length titles < length done + length todo" "length done \<le> length titles"
    and "\<forall>d \<in> set done. titled d" and "\<forall>t \<in> set todo. untitled t \<and> is_elem t"
  shows "tabs_loop titles done todo = Inl IndexError"
  using assms
proof (induction todo arbitrary: "done")
  case Nil
  then show ?case by simp
next
  case (Cons t todo)
  let ?k = "with_attrs [(''class'', AStr ''tabview-tab'')] t"
  have own: "index_of (\<lambda>x. tag_eq x ?k) (done @ ?k # todo) = Some (length done)"
    by (rule index_of_own) (use Cons.prems titled_neq tag_eq_refl in auto)
  show ?case
  proof (cases "length done < length titles")
    case True
    let ?d = "insert_first (new_div ''tab-title'' [Text (titles ! length done)]) ?k"
    have d: "?d = tab_of (titles ! length done) t" by (simp add: tab_of_def)
    have "tabs_loop titles (done @ [?d]) todo = Inl IndexError"
      by (rule Cons.IH) (use Cons.prems d titled_tab_of True in auto)
    then show ?thesis using own True by (simp add: Let_def)
  next
    case False
    then show ?thesis using own by (simp add: Let_def)
  qed
qed

lemma set_foldl_append_new: "set (foldl append_new acc xs) = set acc \<union> set xs"
  by (induction xs arbitrary: acc) (auto simp: append_new_def)

lemma sel_step_matches: "p \<in> set (sel_step doc ctxs st) \<Longrightarrow> matches_at doc (snd st) p"
  by (auto simp: sel_step_def set_foldl_append_new)

lemma select_paths_snoc:
  "select_paths doc scope (sel @ [st]) = sel_step doc (select_paths doc scope sel) st"
  by (simp add: select_paths_def)

lemma select_paths_matches:
  assumes "sel \<noteq> []" "p \<in> set (select_paths doc scope sel)"
  shows "matches_at doc (snd (last sel)) p"
proof -
  from assms(1) obtain sel' st where "sel = sel' @ [st]" by (cases sel rule: rev_cases) auto
  with assms(2) show ?thesis by (simp add: select_paths_snoc sel_step_matches)
qed

lemma in_map_filter: "m \<in> set (List.map_filter f xs) \<longleftrightarrow> (\<exists>x \<in> set xs. f x = Some m)"
  by (induction xs) (auto split: option.splits)

lemma select_elem:
  assumes "sel \<noteq> []" "m \<in> set (select n sel)"
  shows "\<exists>p. node_at n p = Some m \<and> matches (snd (last sel)) m"
proof -
  from assms(2) obtain p where p: "p \<in> set (select_paths n [] sel)" "node_at n p = Some m"
    by (auto simp: select_def in_map_filter)
  with select_paths_matches[OF assms(1) p(1)] show ?thesis by (auto simp: matches_at_def)
qed

lemma matches_is_elem: "matches c m \<Longrightarrow> is_elem m"
  by (cases m) auto

lemma tab_blocks_elem: "t \<in> set (tab_blocks i) \<Longrightarrow> is_elem t"
  unfolding tab_blocks_def
  by (drule select_elem[rotated]) (auto dest: matches_is_elem)

subsection \<open>Construction of pages\<close>

declare override.simps [simp del] children_method.simps [simp del]

lemma and_then_Inr: "and_then r f = Inr y \<longleftrightarrow> (\<exists>x. r = Inr x \<and> f x = Inr y)"
  by (cases r) (auto simp: and_then_def)

lemma set_children_sel [simp]:
  "p_url (set_children cs p) = p_url p" "p_tags (set_children cs p) = p_tags p"
  "p_history (set_children cs p) = p_history p" "p_authors (set_children cs p) = p_authors p"
  "p_raw_html (set_children cs p) = p_raw_html p" "p_children (set_children cs p) = Some cs"
  "p_data (set_children cs p) = p_data p"
  by (simp_all add: set_children_def)

lemma override_data_sel [simp]:
  "p_url (override_data p) = p_url p" "p_tags (override_data p) = p_tags p"
  "p_history (override_data p) = p_history p" "p_authors (override_data p) = p_authors p"
  "p_raw_html (override_data p) = p_raw_html p" "p_children (override_data p) = p_children p"
  by (simp_all add: override_data_def set_data_def)

lemma override_keeps:
  assumes "override sn n p = Inr q"
  shows "p_url q = p_url p \<and> p_tags q = p_tags p \<and> p_history q = p_history p
         \<and> p_authors q = p_authors p \<and> p_raw_html q = p_raw_html p"
  using assms by (auto simp: override.simps Let_def and_then_Inr split: if_splits)

lemma init_page_fields:
  assumes "init_page sn u = Inr p"
  shows "p_url p = u \<and> p_children p = None
         \<and> (p_history p \<noteq> [] \<longrightarrow> meta_authors (db_rewrites sn) u (p_history p) = Inr (p_authors p))"
  using assms
  by (auto simp: init_page_def and_then_Inr split: option.splits prod.splits)

lemma new_page_Inr:
  "new_page sn k u = Inr p \<longleftrightarrow> (\<exists>n p0. k = Suc n \<and> init_page sn u = Inr p0 \<and> override sn n p0 = Inr p)"
  by (cases k) (auto simp: and_then_Inr)

lemma map_sum_Inr: "map_sum id f x = Inr y \<Longrightarrow> \<exists>p. x = Inr p \<and> f p = y"
  by (cases x) auto

lemma single_rev: "map rev_user h = [x] \<Longrightarrow> \<exists>r. h = [r] \<and> rev_user r = x"
  by (cases h) auto

lemma meta_authors_cons:
  assumes "history = r # rs"
  shows "(rewrite tbl u = None \<longrightarrow>
            meta_authors tbl u history = Inr [au (rev_user r) ''original''])
       \<and> (\<forall>rw. rewrite tbl u = Some rw \<and> \<not> rw_override rw \<longrightarrow>
            meta_authors tbl u history =
              Inr [au (rev_user r) ''original'', au (rw_author rw) ''rewrite''])
       \<and> (\<forall>rw. rewrite tbl u = Some rw \<and> rw_override rw \<longrightarrow>
            meta_authors tbl u history = Inr [au (rw_author rw) ''original''])"
  using assms by (simp add: meta_authors_def)

declare digits_of.simps [simp del]

lemma children_method_no_tags:
  "\<not> any_tag (p_tags p) [''scp'', ''hub'', ''goi2014'', ''splash''] \<Longrightarrow> children_method sn n p = Inr []"
  by (simp add: children_method.simps)

lemma range_pages_all2:
  "range_pages sn n u ks = Inr cs \<longleftrightarrow>
     list_all2 (\<lambda>k c. new_page sn n (u @ ''-'' @ digits_of k) = Inr c) ks cs"
proof (induction ks arbitrary: cs)
  case Nil
  then show ?case by auto
next
  case (Cons k ks)
  show ?case
    by (cases cs) (auto simp: and_then_Inr Cons.IH)
qed

lemma override_cases:
  assumes "override sn n p0 = Inr p" "p_children p0 = None"
  shows "(p_url p0 = scp_url ''scp-2998'' \<longrightarrow>
            (\<exists>cs. range_pages sn n (p_url p0) [2 ..< 11] = Inr cs \<and> p_children p = Some cs))
       \<and> (p_url p0 = scp_url ''wills-and-ways-hub'' \<longrightarrow>
            (\<exists>cs. children_method sn n p0 = Inr cs
                  \<and> p_children p = Some (except_url ''marshall-carter-and-dark-hub'' cs)))
       \<and> (p_url p0 = scp_url ''serpent-s-hand-hub'' \<longrightarrow>
            (\<exists>cs. children_method sn n p0 = Inr cs
                  \<and> p_children p = Some (except_url ''black-queen-hub'' cs)))
       \<and> (p_url p0 = scp_url ''chicago-spirit-hub'' \<longrightarrow> p_children p = Some [])
       \<and> (p_url p0 \<notin> scp_url ` {''scp-2998'', ''wills-and-ways-hub'', ''serpent-s-hand-hub'', ''chicago-spirit-hub''}
            \<longrightarrow> p_children p = None)"
proof -
  have inj: "\<And>a b. scp_url a = scp_url b \<longleftrightarrow> a = b" by (simp add: scp_url_def)
  show ?thesis
  proof (cases "p_url p0 = scp_url ''scp-1047-j''")
    case True
    then show ?thesis using assms
      by (auto simp: override.simps Let_def inj)
  next
    case False
    then have od: "override_data p0 = p0" by (simp add: override_data_def)
    show ?thesis using assms
      by (auto simp: override.simps Let_def od inj and_then_Inr split: if_splits)
  qed
qed

lemma any_backlinks_ok:
  "\<forall>c \<in> set ps. \<exists>b. backlinks hub c = Inr b \<Longrightarrow>
   any_backlinks hub ps = Inr (\<exists>c \<in> set ps. backlinks hub c = Inr True)"
  by (induction ps) (auto simp: and_then_def)

lemma filter_backlinks_ok:
  "\<forall>c \<in> set ps. \<exists>b. backlinks hub c = Inr b \<Longrightarrow>
   filter_backlinks hub ps = Inr (filter (\<lambda>c. backlinks hub c = Inr True) ps)"
  by (induction ps) (auto simp: and_then_def)

lemma backlinks_True:
  "backlinks hub c = Inr True \<longleftrightarrow>
     (\<exists>lc. links (p_raw_html c) = Inr lc
         \<and> (hub \<in> set lc \<or> (\<exists>soup. p_raw_html c = Some soup \<and> last_crumb soup = Inr (Some hub))))"
  by (auto simp: backlinks_def and_then_Inr split: option.splits if_splits)

lemma new_page_url: "new_page sn k u = Inr p \<Longrightarrow> p_url p = u"
  using init_page_fields override_keeps by (fastforce simp: new_page_Inr)

lemma linked_pages_filter:
  "linked_pages sn n ls = Inr lpages \<Longrightarrow>
   map p_url lpages = filter (\<lambda>u. \<exists>q. new_page sn n u = Inr q \<and> p_data q \<noteq> None) ls"
proof (induction ls arbitrary: lpages)
  case Nil
  then show ?case by simp
next
  case (Cons u us)
  show ?case
  proof (cases "new_page sn n u")
    case (Inl e)
    with Cons show ?thesis by (auto split: if_splits)
  next
    case (Inr q)
    with Cons.prems obtain ps where ps: "linked_pages sn n us = Inr ps" "lpages = keep_with_data q ps"
      by (auto simp: and_then_Inr)
    from Cons.IH[OF ps(1)] ps(2) Inr new_page_url[OF Inr] show ?thesis
      by (auto simp: keep_with_data_def)
  qed
qed

lemma not_isl_Inr: "\<not> isl r \<Longrightarrow> \<exists>b. r = Inr b"
  by (cases r) auto

subsection \<open>The claims\<close>

text \<open>
  C4. For a page with non-empty history whose earliest revision's user is X: with no
  rewrite entry for the url the authors are [(X, original)]; with a rewrite entry
  (Y, override false) they are [(X, original), (Y, rewrite)]; with a rewrite entry
  (Y, override true) they are [(Y, original)], which replaces X rather than appending.
\<close>

theorem page_authors:
  assumes "new_page sn k u = Inr p" "p_history p = r # rs"
  shows "(rewrite (db_rewrites sn) u = None \<longrightarrow>
            p_authors p = [au (rev_user r) ''original''])
       \<and> (\<forall>rw. rewrite (db_rewrites sn) u = Some rw \<and> \<not> rw_override rw \<longrightarrow>
            p_authors p = [au (rev_user r) ''original'', au (rw_author rw) ''rewrite''])
       \<and> (\<forall>rw. rewrite (db_rewrites sn) u = Some rw \<and> rw_override rw \<longrightarrow>
            p_authors p = [au (rw_author rw) ''original''])"
proof -
  from assms(1) obtain n p0 where p0: "init_page sn u = Inr p0" "override sn n p0 = Inr p"
    by (auto simp: new_page_Inr)
  from override_keeps[OF p0(2)] assms(2)
  have h: "p_history p0 = r # rs" "p_authors p = p_authors p0" by simp_all
  with init_page_fields[OF p0(1)]
  have "meta_authors (db_rewrites sn) u (r # rs) = Inr (p_authors p)" by simp
  with meta_authors_cons[of "r # rs" r rs "db_rewrites sn" u] show ?thesis by auto
qed

theorem page_authors_witness:
  "(\<exists>p. new_page authors_snapshot 1 (scp_url ''one'') = Inr p
        \<and> map rev_user (p_history p) = [''alice'']
        \<and> rewrite (db_rewrites authors_snapshot) (scp_url ''one'') = None
        \<and> p_authors p = [au ''alice'' ''original''])
   \<and> (\<exists>p. new_page authors_snapshot 1 (scp_url ''two'') = Inr p
        \<and> map rev_user (p_history p) = [''alice'']
        \<and> rewrite (db_rewrites authors_snapshot) (scp_url ''two'') = Some \<lparr>rw_url = scp_url ''two'', rw_author = ''bob'', rw_override = False\<rparr>
        \<and> p_authors p = [au ''alice'' ''original'', au ''bob'' ''rewrite''])
   \<and> (\<exists>p. new_page authors_snapshot 1 (scp_url ''three'') = Inr p
        \<and> map rev_user (p_history p) = [''alice'']
        \<and> rewrite (db_rewrites authors_snapshot) (scp_url ''three'') = Some \<lparr>rw_url = scp_url ''three'', rw_author = ''bob'', rw_override = True\<rparr>
        \<and> p_authors p = [au ''bob'' ''original''])"
proof (intro conjI)
  have e: "map_sum id (\<lambda>p. map rev_user (p_history p))
          (new_page authors_snapshot 1 (scp_url ''one'')) = Inr [''alice'']"
    by code_simp
  from map_sum_Inr[OF e] obtain p where pp: "new_page authors_snapshot 1 (scp_url ''one'') = Inr p
      \<and> map rev_user (p_history p) = [''alice'']" ..
  from pp have p1: "new_page authors_snapshot 1 (scp_url ''one'') = Inr p" by (rule conjunct1)
  from pp have p2: "map rev_user (p_history p) = [''alice'']" by (rule conjunct2)
  from single_rev[OF p2] obtain r where rr: "p_history p = [r] \<and> rev_user r = ''alice''" ..
  from rr have r1: "p_history p = [r]" by (rule conjunct1)
  from rr have r2: "rev_user r = ''alice''" by (rule conjunct2)
  have rw: "rewrite (db_rewrites authors_snapshot) (scp_url ''one'') = None"
    by code_simp
  from page_authors[OF p1 r1] have "rewrite (db_rewrites authors_snapshot) (scp_url ''one'') = None \<longrightarrow>
            p_authors p = [au (rev_user r) ''original'']" by (rule conjunct1)
  from this rw have "p_authors p = [au (rev_user r) ''original'']" by (rule mp)
  then have a: "p_authors p = [au ''alice'' ''original'']" by (simp only: r2)
  show "\<exists>p. new_page authors_snapshot 1 (scp_url ''one'') = Inr p
        \<and> map rev_user (p_history p) = [''alice'']
        \<and> rewrite (db_rewrites authors_snapshot) (scp_url ''one'') = None
        \<and> p_authors p = [au ''alice'' ''original'']"
    by (intro exI[of _ p] conjI p1 p2 rw a)
next
  have e: "map_sum id (\<lambda>p. map rev_user (p_history p))
          (new_page authors_snapshot 1 (scp_url ''two'')) = Inr [''alice'']"
    by code_simp
  from map_sum_Inr[OF e] obtain p where pp: "new_page authors_snapshot 1 (scp_url ''two'') = Inr p
      \<and> map rev_user (p_history p) = [''alice'']" ..
  from pp have p1: "new_page authors_snapshot 1 (scp_url ''two'') = Inr p" by (rule conjunct1)
  from pp have p2: "map rev_user (p_history p) = [''alice'']" by (rule conjunct2)
  from single_rev[OF p2] obtain r where rr: "p_history p = [r] \<and> rev_user r = ''alice''" ..
  from rr have r1: "p_history p = [r]" by (rule conjunct1)
  from rr have r2: "rev_user r = ''alice''" by (rule conjunct2)
  have rw: "rewrite (db_rewrites authors_snapshot) (scp_url ''two'') = Some \<lparr>rw_url = scp_url ''two'', rw_author = ''bob'', rw_override = False\<rparr>"
    by code_simp
  from page_authors[OF p1 r1] have "\<forall>rw. rewrite (db_rewrites authors_snapshot) (scp_url ''two'') = Some rw
            \<and> \<not> rw_override rw \<longrightarrow>
            p_authors p = [au (rev_user r) ''original'', au (rw_author rw) ''rewrite'']"
    by (rule conjunct1[OF conjunct2])
  then have "rewrite (db_rewrites authors_snapshot) (scp_url ''two'') = Some \<lparr>rw_url = scp_url ''two'', rw_author = ''bob'', rw_override = False\<rparr>
            \<and> \<not> rw_override \<lparr>rw_url = scp_url ''two'', rw_author = ''bob'', rw_override = False\<rparr> \<longrightarrow>
            p_authors p = [au (rev_user r) ''original'', au (rw_author \<lparr>rw_url = scp_url ''two'', rw_author = ''bob'', rw_override = False\<rparr>) ''rewrite'']"
    by (rule spec)
  moreover have "\<not> rw_override \<lparr>rw_url = scp_url ''two'', rw_author = ''bob'', rw_override = False\<rparr>" by simp
  ultimately have "p_authors p = [au (rev_user r) ''original'', au (rw_author \<lparr>rw_url = scp_url ''two'', rw_author = ''bob'', rw_override = False\<rparr>) ''rewrite'']"
    using rw by (simp only: simp_thms)
  then have a: "p_authors p = [au ''alice'' ''original'', au ''bob'' ''rewrite'']" by (simp only: r2 db_rewrite.simps)
  show "\<exists>p. new_page authors_snapshot 1 (scp_url ''two'') = Inr p
        \<and> map rev_user (p_history p) = [''alice'']
        \<and> rewrite (db_rewrites authors_snapshot) (scp_url ''two'') = Some \<lparr>rw_url = scp_url ''two'', rw_author = ''bob'', rw_override = False\<rparr>
        \<and> p_authors p = [au ''alice'' ''original'', au ''bob'' ''rewrite'']"
    by (intro exI[of _ p] conjI p1 p2 rw a)
next
  have e: "map_sum id (\<lambda>p. map rev_user (p_history p))
          (new_page authors_snapshot 1 (scp_url ''three'')) = Inr [''alice'']"
    by code_simp
  from map_sum_Inr[OF e] obtain p where pp: "new_page authors_snapshot 1 (scp_url ''three'') = Inr p
      \<and> map rev_user (p_history p) = [''alice'']" ..
  from pp have p1: "new_page authors_snapshot 1 (scp_url ''three'') = Inr p" by (rule conjunct1)
  from pp have p2: "map rev_user (p_history p) = [''alice'']" by (rule conjunct2)
  from single_rev[OF p2] obtain r where rr: "p_history p = [r] \<and> rev_user r = ''alice''" ..
  from rr have r1: "p_history p = [r]" by (rule conjunct1)
  from rr have r2: "rev_user r = ''alice''" by (rule conjunct2)
  have rw: "rewrite (db_rewrites authors_snapshot) (scp_url ''three'') = Some \<lparr>rw_url = scp_url ''three'', rw_author = ''bob'', rw_override = True\<rparr>"
    by code_simp
  from page_authors[OF p1 r1] have "\<forall>rw. rewrite (db_rewrites authors_snapshot) (scp_url ''three'') = Some rw
            \<and> rw_override rw \<longrightarrow> p_authors p = [au (rw_author rw) ''original'']"
    by (rule conjunct2[OF conjunct2])
  then have "rewrite (db_rewrites authors_snapshot) (scp_url ''three'') = Some \<lparr>rw_url = scp_url ''three'', rw_author = ''bob'', rw_override = True\<rparr>
            \<and> rw_override \<lparr>rw_url = scp_url ''three'', rw_author = ''bob'', rw_override = True\<rparr> \<longrightarrow> p_authors p = [au (rw_author \<lparr>rw_url = scp_url ''three'', rw_author = ''bob'', rw_override = True\<rparr>) ''original'']"
    by (rule spec)
  moreover have "rw_override \<lparr>rw_url = scp_url ''three'', rw_author = ''bob'', rw_override = True\<rparr>" by simp
  ultimately have "p_authors p = [au (rw_author \<lparr>rw_url = scp_url ''three'', rw_author = ''bob'', rw_override = True\<rparr>) ''original'']"
    using rw by (simp only: simp_thms)
  then have a: "p_authors p = [au ''bob'' ''original'']" by (simp only: db_rewrite.simps)
  show "\<exists>p. new_page authors_snapshot 1 (scp_url ''three'') = Inr p
        \<and> map rev_user (p_history p) = [''alice'']
        \<and> rewrite (db_rewrites authors_snapshot) (scp_url ''three'') = Some \<lparr>rw_url = scp_url ''three'', rw_author = ''bob'', rw_override = True\<rparr>
        \<and> p_authors p = [au ''bob'' ''original'']"
    by (intro exI[of _ p] conjI p1 p2 rw a)
qed

text \<open>
  C1. The claim: the content of a page is absent exactly when the markup has no content
  region, and the title paragraph is prepended only when content existed. The code
  formats the title paragraph around whatever \<open>_parse_body\<close> left, so the page below,
  which has no \<open>#page-content\<close>, ends with the title paragraph followed by the text
  \<open>None\<close> as its data.
\<close>

theorem no_content_region_data:
  "map_sum id p_data (new_page bare_snapshot 1 (scp_url ''about'')) =
     Inr (Some (''<p class='' @ [CHR 0x27] @ ''tale-title'' @ [CHR 0x27] @ ''></p>None''))"
  by code_simp

text \<open>
  C9. The claim: the comment count is an integer, the one parsed from the text of the
  discussion button, or 0. For a button reading \<open>Discuss (12)\<close> the code stores the
  matched text \<open>'12'\<close>, a string; only the fallback stores an integer.
\<close>

theorem comments_is_text:
  "map_sum id p_comments (new_page bare_snapshot 1 (scp_url ''about'')) = Inr (PyStr ''12'')"
  by code_simp

text \<open>
  C8. The claim: for every page \<open>links()\<close> returns the internal targets of the content
  region, without image files. An anchor with an empty href makes \<open>links()\<close> raise
  IndexError, and an image target followed by \<open>|\<close> passes the test of the extension
  and is returned with the \<open>|\<close> stripped.
\<close>

theorem links_slips:
  "links (Some (document [page_content [anchor ''/a'', anchor []]])) = Inl IndexError
   \<and> links (Some (document [page_content [anchor ''/a.png|'']])) = Inr [scp_url ''a.png'']"
  by code_simp

text \<open>
  C3. The claim: a tab view whose number of titles differs from its number of content
  blocks raises a MalformedContentError. The code has no such error and never compares
  the two numbers. As amended: a tab view with at least as many titles as content blocks
  is transformed without an error, the titles beyond the last block being ignored; one
  with fewer titles than content blocks, none of which begins with a title div, raises
  IndexError at the first block without a title.
\<close>

theorem tabview_errors:
  "(length (tab_blocks i) \<le> length (tab_titles i) \<longrightarrow> (\<exists>w. parse_tabview i = Inr w))
   \<and> (list_all untitled (tab_blocks i) \<and> length (tab_titles i) < length (tab_blocks i)
        \<longrightarrow> parse_tabview i = Inl IndexError)"
proof (intro conjI impI)
  assume "length (tab_blocks i) \<le> length (tab_titles i)"
  then show "\<exists>w. parse_tabview i = Inr w"
    using tabs_loop_ok[of "[]" "tab_blocks i" "tab_titles i"] by (auto simp: parse_tabview_def)
next
  assume a: "list_all untitled (tab_blocks i) \<and> length (tab_titles i) < length (tab_blocks i)"
  then have "tabs_loop (tab_titles i) [] (tab_blocks i) = Inl IndexError"
    using tab_blocks_elem[of _ i] by (intro tabs_loop_short) (auto simp: list_all_iff)
  then show "parse_tabview i = Inl IndexError" by (simp add: parse_tabview_def)
qed

theorem tabview_errors_witness:
  "(length (tab_blocks (tab_view [''A'', ''B'', ''C''] [block ''x'', block ''y'']))
      \<le> length (tab_titles (tab_view [''A'', ''B'', ''C''] [block ''x'', block ''y'']))
    \<and> (\<exists>w. parse_tabview (tab_view [''A'', ''B'', ''C''] [block ''x'', block ''y'']) = Inr w))
   \<and> (list_all untitled (tab_blocks (tab_view [''A''] [block ''x'', block ''y'']))
      \<and> length (tab_titles (tab_view [''A''] [block ''x'', block ''y'']))
          < length (tab_blocks (tab_view [''A''] [block ''x'', block ''y'']))
      \<and> parse_tabview (tab_view [''A''] [block ''x'', block ''y'']) = Inl IndexError)"
proof -
  have h1: "length (tab_blocks (tab_view [''A'', ''B'', ''C''] [block ''x'', block ''y'']))
      \<le> length (tab_titles (tab_view [''A'', ''B'', ''C''] [block ''x'', block ''y'']))"
    by code_simp
  have h2: "list_all untitled (tab_blocks (tab_view [''A''] [block ''x'', block ''y'']))" by code_simp
  have h3: "length (tab_titles (tab_view [''A''] [block ''x'', block ''y'']))
          < length (tab_blocks (tab_view [''A''] [block ''x'', block ''y'']))"
    by code_simp
  note t1 = tabview_errors[of "tab_view [''A'', ''B'', ''C''] [block ''x'', block ''y'']", THEN conjunct1, THEN mp, OF h1]
  note t2 = tabview_errors[of "tab_view [''A''] [block ''x'', block ''y'']", THEN conjunct2, THEN mp, OF conjI[OF h2 h3]]
  show ?thesis by (intro conjI h1 h2 h3 t1 t2)
qed

text \<open>Three titles with two content blocks: the pass returns, the third title is dropped.\<close>

theorem surplus_title_no_error:
  "parse_tabviews (page_content [tab_view [''A'', ''B'', ''C''] [block ''x'', block ''y'']]) =
     Inr (page_content
            [Elem ''div'' [(''class'', AList [''tabview''])]
               [Elem ''div'' [(''class'', AStr ''tabview-tab'')]
                  [Elem ''div'' [(''class'', AList [''tab-title''])] [Text ''A''], Text ''x''],
                Elem ''div'' [(''class'', AStr ''tabview-tab'')]
                  [Elem ''div'' [(''class'', AList [''tab-title''])] [Text ''B''], Text ''y'']]])"
  by code_simp




text \<open>
  A second block that already begins with the title div of the first: the search ends
  at the first block, and the second block receives the first title again. With one
  title only, the same two blocks are transformed without an error.
\<close>

lemma earlier_block_found:
  "parse_tabview (tab_view [''A'', ''B'']
       [block ''x'',
        Elem ''div'' [] [Elem ''div'' [(''class'', AList [''tab-title''])] [Text ''A''], Text ''x'']]) =
    Inr (Elem ''div'' [(''class'', AList [''tabview''])]
           [Elem ''div'' [(''class'', AStr ''tabview-tab'')]
              [Elem ''div'' [(''class'', AList [''tab-title''])] [Text ''A''], Text ''x''],
            Elem ''div'' [(''class'', AStr ''tabview-tab'')]
              [Elem ''div'' [(''class'', AList [''tab-title''])] [Text ''A''],
               Elem ''div'' [(''class'', AList [''tab-title''])] [Text ''A''], Text ''x'']])"
  "parse_tabview (tab_view [''A'']
       [block ''x'',
        Elem ''div'' [] [Elem ''div'' [(''class'', AList [''tab-title''])] [Text ''A''], Text ''x'']]) =
    Inr (Elem ''div'' [(''class'', AList [''tabview''])]
           [Elem ''div'' [(''class'', AStr ''tabview-tab'')]
              [Elem ''div'' [(''class'', AList [''tab-title''])] [Text ''A''], Text ''x''],
            Elem ''div'' [(''class'', AStr ''tabview-tab'')]
              [Elem ''div'' [(''class'', AList [''tab-title''])] [Text ''A''],
               Elem ''div'' [(''class'', AList [''tab-title''])] [Text ''A''], Text ''x'']])"
  by code_simp+

text \<open>
  C6. For a page whose url has an entry in the table of children, \<open>children()\<close> returns
  the list bound by \<open>_override\<close>, whatever the links resolve to when it is called: for
  \<open>scp-2998\<close> the pages built for the suffixes 2 to 10, for the two hubs with an
  excluded url the normally resolved children without the page of that url, for
  \<open>chicago-spirit-hub\<close> the empty list.
\<close>

theorem children_override:
  assumes "new_page sn (Suc n) u = Inr p"
  shows "(u = scp_url ''scp-2998'' \<longrightarrow>
            (\<exists>cs. list_all2 (\<lambda>k c. new_page sn n (u @ ''-'' @ digits_of k) = Inr c) [2 ..< 11] cs
                  \<and> children sn m p = Inr cs))
       \<and> (u = scp_url ''wills-and-ways-hub'' \<longrightarrow>
            (\<exists>p0 cs. init_page sn u = Inr p0 \<and> children_method sn n p0 = Inr cs
                  \<and> children sn m p =
                      Inr (filter (\<lambda>c. p_url c \<noteq> scp_url ''marshall-carter-and-dark-hub'') cs)))
       \<and> (u = scp_url ''serpent-s-hand-hub'' \<longrightarrow>
            (\<exists>p0 cs. init_page sn u = Inr p0 \<and> children_method sn n p0 = Inr cs
                  \<and> children sn m p = Inr (filter (\<lambda>c. p_url c \<noteq> scp_url ''black-queen-hub'') cs)))
       \<and> (u = scp_url ''chicago-spirit-hub'' \<longrightarrow> children sn m p = Inr [])"
proof -
  from assms obtain p0 where p0: "init_page sn u = Inr p0" "override sn n p0 = Inr p"
    by (auto simp: and_then_Inr)
  from init_page_fields[OF p0(1)] have u: "p_url p0 = u" "p_children p0 = None" by simp_all
  note oc = override_cases[OF p0(2) u(2), unfolded u(1)]
  show ?thesis
  proof (intro conjI impI)
    assume "u = scp_url ''scp-2998''"
    with oc obtain cs where cs: "range_pages sn n u [2 ..< 11] = Inr cs" "p_children p = Some cs"
      by blast
    from cs(1) have "list_all2 (\<lambda>k c. new_page sn n (u @ ''-'' @ digits_of k) = Inr c) [2 ..< 11] cs"
      by (simp only: range_pages_all2)
    moreover from cs(2) have "children sn m p = Inr cs" by (simp add: children_def)
    ultimately show "\<exists>cs. list_all2 (\<lambda>k c. new_page sn n (u @ ''-'' @ digits_of k) = Inr c) [2 ..< 11] cs
                  \<and> children sn m p = Inr cs"
      by blast
  next
    assume "u = scp_url ''wills-and-ways-hub''"
    with oc p0(1) show "\<exists>p0 cs. init_page sn u = Inr p0 \<and> children_method sn n p0 = Inr cs
                  \<and> children sn m p =
                      Inr (filter (\<lambda>c. p_url c \<noteq> scp_url ''marshall-carter-and-dark-hub'') cs)"
      by (auto simp: children_def except_url_def)
  next
    assume "u = scp_url ''serpent-s-hand-hub''"
    with oc p0(1) show "\<exists>p0 cs. init_page sn u = Inr p0 \<and> children_method sn n p0 = Inr cs
                  \<and> children sn m p = Inr (filter (\<lambda>c. p_url c \<noteq> scp_url ''black-queen-hub'') cs)"
      by (auto simp: children_def except_url_def)
  next
    assume "u = scp_url ''chicago-spirit-hub''"
    with oc show "children sn m p = Inr []" by (simp add: children_def)
  qed
qed

theorem children_override_witness:
  "(\<exists>p. new_page range_snapshot (Suc 1) (scp_url ''scp-2998'') = Inr p
        \<and> (\<exists>cs. list_all2 (\<lambda>k c. new_page range_snapshot 1 (scp_url ''scp-2998'' @ ''-'' @ digits_of k) = Inr c) [2 ..< 11] cs
                  \<and> children range_snapshot 0 p = Inr cs))
   \<and> (\<exists>p. new_page hub_snapshot (Suc 1) (scp_url ''wills-and-ways-hub'') = Inr p
        \<and> (\<exists>p0 cs. init_page hub_snapshot (scp_url ''wills-and-ways-hub'') = Inr p0 \<and> children_method hub_snapshot 1 p0 = Inr cs
                  \<and> children hub_snapshot 0 p =
                      Inr (filter (\<lambda>c. p_url c \<noteq> scp_url ''marshall-carter-and-dark-hub'') cs)))
   \<and> (\<exists>p. new_page hub_snapshot (Suc 1) (scp_url ''serpent-s-hand-hub'') = Inr p
        \<and> (\<exists>p0 cs. init_page hub_snapshot (scp_url ''serpent-s-hand-hub'') = Inr p0 \<and> children_method hub_snapshot 1 p0 = Inr cs
                  \<and> children hub_snapshot 0 p = Inr (filter (\<lambda>c. p_url c \<noteq> scp_url ''black-queen-hub'') cs)))
   \<and> (\<exists>p. new_page hub_snapshot (Suc 1) (scp_url ''chicago-spirit-hub'') = Inr p
        \<and> children hub_snapshot 0 p = Inr [])"
proof (intro conjI)
  have e: "map_sum id (\<lambda>p. True) (new_page range_snapshot (Suc 1) (scp_url ''scp-2998'')) = Inr True"
    by code_simp
  from map_sum_Inr[OF e] obtain p where pp: "new_page range_snapshot (Suc 1) (scp_url ''scp-2998'') = Inr p \<and> True = True" ..
  from pp have p1: "new_page range_snapshot (Suc 1) (scp_url ''scp-2998'') = Inr p" by (rule conjunct1)
  have "scp_url ''scp-2998'' = scp_url ''scp-2998'' \<longrightarrow> (\<exists>cs. list_all2 (\<lambda>k c. new_page range_snapshot 1 (scp_url ''scp-2998'' @ ''-'' @ digits_of k) = Inr c) [2 ..< 11] cs
                  \<and> children range_snapshot 0 p = Inr cs)"
    by (rule children_override[OF p1, of 0, THEN conjunct1])
  then have c: "(\<exists>cs. list_all2 (\<lambda>k c. new_page range_snapshot 1 (scp_url ''scp-2998'' @ ''-'' @ digits_of k) = Inr c) [2 ..< 11] cs
                  \<and> children range_snapshot 0 p = Inr cs)" by (simp only: simp_thms)
  show "\<exists>p. new_page range_snapshot (Suc 1) (scp_url ''scp-2998'') = Inr p
        \<and> (\<exists>cs. list_all2 (\<lambda>k c. new_page range_snapshot 1 (scp_url ''scp-2998'' @ ''-'' @ digits_of k) = Inr c) [2 ..< 11] cs
                  \<and> children range_snapshot 0 p = Inr cs)"
    by (intro exI[of _ p] conjI p1 c)
next
  have e: "map_sum id (\<lambda>p. True) (new_page hub_snapshot (Suc 1) (scp_url ''wills-and-ways-hub'')) = Inr True"
    by code_simp
  from map_sum_Inr[OF e] obtain p where pp: "new_page hub_snapshot (Suc 1) (scp_url ''wills-and-ways-hub'') = Inr p \<and> True = True" ..
  from pp have p1: "new_page hub_snapshot (Suc 1) (scp_url ''wills-and-ways-hub'') = Inr p" by (rule conjunct1)
  have "scp_url ''wills-and-ways-hub'' = scp_url ''wills-and-ways-hub'' \<longrightarrow> (\<exists>p0 cs. init_page hub_snapshot (scp_url ''wills-and-ways-hub'') = Inr p0 \<and> children_method hub_snapshot 1 p0 = Inr cs
                  \<and> children hub_snapshot 0 p =
                      Inr (filter (\<lambda>c. p_url c \<noteq> scp_url ''marshall-carter-and-dark-hub'') cs))"
    by (rule children_override[OF p1, of 0, THEN conjunct2, THEN conjunct1])
  then have c: "(\<exists>p0 cs. init_page hub_snapshot (scp_url ''wills-and-ways-hub'') = Inr p0 \<and> children_method hub_snapshot 1 p0 = Inr cs
                  \<and> children hub_snapshot 0 p =
                      Inr (filter (\<lambda>c. p_url c \<noteq> scp_url ''marshall-carter-and-dark-hub'') cs))" by (simp only: simp_thms)
  show "\<exists>p. new_page hub_snapshot (Suc 1) (scp_url ''wills-and-ways-hub'') = Inr p
        \<and> (\<exists>p0 cs. init_page hub_snapshot (scp_url ''wills-and-ways-hub'') = Inr p0 \<and> children_method hub_snapshot 1 p0 = Inr cs
                  \<and> children hub_snapshot 0 p =
                      Inr (filter (\<lambda>c. p_url c \<noteq> scp_url ''marshall-carter-and-dark-hub'') cs))"
    by (intro exI[of _ p] conjI p1 c)
next
  have e: "map_sum id (\<lambda>p. True) (new_page hub_snapshot (Suc 1) (scp_url ''serpent-s-hand-hub'')) = Inr True"
    by code_simp
  from map_sum_Inr[OF e] obtain p where pp: "new_page hub_snapshot (Suc 1) (scp_url ''serpent-s-hand-hub'') = Inr p \<and> True = True" ..
  from pp have p1: "new_page hub_snapshot (Suc 1) (scp_url ''serpent-s-hand-hub'') = Inr p" by (rule conjunct1)
  have "scp_url ''serpent-s-hand-hub'' = scp_url ''serpent-s-hand-hub'' \<longrightarrow> (\<exists>p0 cs. init_page hub_snapshot (scp_url ''serpent-s-hand-hub'') = Inr p0 \<and> children_method hub_snapshot 1 p0 = Inr cs
                  \<and> children hub_snapshot 0 p = Inr (filter (\<lambda>c. p_url c \<noteq> scp_url ''black-queen-hub'') cs))"
    by (rule children_override[OF p1, of 0, THEN conjunct2, THEN conjunct2, THEN conjunct1])
  then have c: "(\<exists>p0 cs. init_page hub_snapshot (scp_url ''serpent-s-hand-hub'') = Inr p0 \<and> children_method hub_snapshot 1 p0 = Inr cs
                  \<and> children hub_snapshot 0 p = Inr (filter (\<lambda>c. p_url c \<noteq> scp_url ''black-queen-hub'') cs))" by (simp only: simp_thms)
  show "\<exists>p. new_page hub_snapshot (Suc 1) (scp_url ''serpent-s-hand-hub'') = Inr p
        \<and> (\<exists>p0 cs. init_page hub_snapshot (scp_url ''serpent-s-hand-hub'') = Inr p0 \<and> children_method hub_snapshot 1 p0 = Inr cs
                  \<and> children hub_snapshot 0 p = Inr (filter (\<lambda>c. p_url c \<noteq> scp_url ''black-queen-hub'') cs))"
    by (intro exI[of _ p] conjI p1 c)
next
  have e: "map_sum id (\<lambda>p. True) (new_page hub_snapshot (Suc 1) (scp_url ''chicago-spirit-hub'')) = Inr True"
    by code_simp
  from map_sum_Inr[OF e] obtain p where pp: "new_page hub_snapshot (Suc 1) (scp_url ''chicago-spirit-hub'') = Inr p \<and> True = True" ..
  from pp have p1: "new_page hub_snapshot (Suc 1) (scp_url ''chicago-spirit-hub'') = Inr p" by (rule conjunct1)
  have "scp_url ''chicago-spirit-hub'' = scp_url ''chicago-spirit-hub'' \<longrightarrow> children hub_snapshot 0 p = Inr []"
    by (rule children_override[OF p1, of 0, THEN conjunct2, THEN conjunct2, THEN conjunct2])
  then have c: "children hub_snapshot 0 p = Inr []" by (simp only: simp_thms)
  show "\<exists>p. new_page hub_snapshot (Suc 1) (scp_url ''chicago-spirit-hub'') = Inr p
        \<and> children hub_snapshot 0 p = Inr []"
    by (intro exI[of _ p] conjI p1 c)
qed

text \<open>What the three hubs of the example return: the excluded hub is not among the children.\<close>

lemma hub_children_values:
  "map_sum id (\<lambda>p. map_sum id (map p_url) (children hub_snapshot 0 p))
     (new_page hub_snapshot 2 (scp_url ''wills-and-ways-hub'')) = Inr (Inr [scp_url ''tale-1''])"
  "map_sum id (\<lambda>p. map_sum id (map p_url) (children hub_snapshot 0 p))
     (new_page hub_snapshot 2 (scp_url ''serpent-s-hand-hub'')) = Inr (Inr [scp_url ''tale-1''])"
  "map_sum id (\<lambda>p. map_sum id (map p_url) (children hub_snapshot 0 p))
     (new_page hub_snapshot 2 (scp_url ''chicago-spirit-hub'')) = Inr (Inr [])"
  by code_simp+

text \<open>
  C7. The claim: a page whose tags share no member with scp, hub, goi2014, splash has no
  children. The list bound for \<open>scp-2998\<close> does not depend on the tags. As amended:
  a page with no such tag and a url other than that of \<open>scp-2998\<close> has no children.
\<close>

theorem untagged_children:
  assumes "new_page sn k u = Inr p"
    and "\<not> any_tag (p_tags p) [''scp'', ''hub'', ''goi2014'', ''splash'']"
    and "u \<noteq> scp_url ''scp-2998''"
  shows "children sn m p = Inr []"
proof -
  from assms(1) obtain n p0 where p0: "init_page sn u = Inr p0" "override sn n p0 = Inr p"
    by (auto simp: new_page_Inr)
  from init_page_fields[OF p0(1)] have u: "p_url p0 = u" "p_children p0 = None" by simp_all
  from override_keeps[OF p0(2)] assms(2)
  have t0: "\<not> any_tag (p_tags p0) [''scp'', ''hub'', ''goi2014'', ''splash'']" by simp
  note oc = override_cases[OF p0(2) u(2), unfolded u(1)]
  have cm: "\<And>j q. children_method sn j p0 = Inr q \<Longrightarrow> q = []"
    using children_method_no_tags[OF t0] by simp
  consider "u = scp_url ''wills-and-ways-hub''" | "u = scp_url ''serpent-s-hand-hub''"
    | "u = scp_url ''chicago-spirit-hub''"
    | "u \<notin> scp_url ` {''scp-2998'', ''wills-and-ways-hub'', ''serpent-s-hand-hub'', ''chicago-spirit-hub''}"
    using assms(3) by blast
  then show ?thesis
  proof cases
    case 1
    with oc obtain cs where cs: "children_method sn n p0 = Inr cs"
        "p_children p = Some (except_url ''marshall-carter-and-dark-hub'' cs)" by blast
    from cm[OF cs(1)] cs(2) show ?thesis by (simp add: children_def except_url_def)
  next
    case 2
    with oc obtain cs where cs: "children_method sn n p0 = Inr cs"
        "p_children p = Some (except_url ''black-queen-hub'' cs)" by blast
    from cm[OF cs(1)] cs(2) show ?thesis by (simp add: children_def except_url_def)
  next
    case 3
    with oc show ?thesis by (simp add: children_def)
  next
    case 4
    with oc have "p_children p = None" by blast
    then show ?thesis using children_method_no_tags[OF assms(2)] by (simp add: children_def)
  qed
qed

theorem untagged_children_witness:
  "\<exists>p. new_page hub_snapshot 1 (scp_url ''tale-1'') = Inr p
      \<and> \<not> any_tag (p_tags p) [''scp'', ''hub'', ''goi2014'', ''splash'']
      \<and> scp_url ''tale-1'' \<noteq> scp_url ''scp-2998''
      \<and> children hub_snapshot 1 p = Inr []"
proof -
  have e: "map_sum id (\<lambda>p. \<not> any_tag (p_tags p) [''scp'', ''hub'', ''goi2014'', ''splash''])
             (new_page hub_snapshot 1 (scp_url ''tale-1'')) = Inr True"
    by code_simp
  from map_sum_Inr[OF e] obtain p where pp: "new_page hub_snapshot 1 (scp_url ''tale-1'') = Inr p
      \<and> (\<not> any_tag (p_tags p) [''scp'', ''hub'', ''goi2014'', ''splash'']) = True" ..
  from pp have p1: "new_page hub_snapshot 1 (scp_url ''tale-1'') = Inr p" by (rule conjunct1)
  from pp have p2: "\<not> any_tag (p_tags p) [''scp'', ''hub'', ''goi2014'', ''splash'']" by (simp only: simp_thms)
  have ne: "scp_url ''tale-1'' \<noteq> scp_url ''scp-2998''" by code_simp
  have c: "children hub_snapshot 1 p = Inr []" by (rule untagged_children[OF p1 p2 ne])
  show ?thesis by (intro exI[of _ p] conjI p1 p2 ne c)
qed

text \<open>
  The page \<open>scp-2998\<close> stored without any tag: its children are the nine pages of the
  range, built by the constructor.
\<close>

theorem untagged_range_children:
  "map_sum id (\<lambda>p. (any_tag (p_tags p) [''scp'', ''hub'', ''goi2014'', ''splash''],
                     map_sum id (map p_url) (children range_snapshot 0 p)))
     (new_page range_snapshot 2 (scp_url ''scp-2998'')) =
   Inr (False, Inr [scp_url ''scp-2998-2'', scp_url ''scp-2998-3'', scp_url ''scp-2998-4'',
                    scp_url ''scp-2998-5'', scp_url ''scp-2998-6'', scp_url ''scp-2998-7'',
                    scp_url ''scp-2998-8'', scp_url ''scp-2998-9'', scp_url ''scp-2998-10''])"
  by code_simp

text \<open>
  C2. The claim: for every page tagged hub and also tale or goi2014, \<open>children()\<close>
  returns the confirmed candidates when there is one, else all candidates. The branch
  for scp and splash comes first in the code, and a bound list replaces the method. As
  amended: for a page tagged hub and tale or goi2014, not tagged scp or splash, without
  a bound list, whose links resolve and whose candidates can all be tested: a candidate
  is confirmed iff the hub's url is among its links or its last breadcrumb leads to the
  hub's url; \<open>children()\<close> returns the confirmed candidates in their order when there
  is one, else all candidates; the candidates are the linked pages with a matching tag,
  in the order of the links.
\<close>

theorem hub_children:
  assumes "has_tag (p_tags p) ''hub''" and "any_tag (p_tags p) [''tale'', ''goi2014'']"
    and "\<not> any_tag (p_tags p) [''scp'', ''splash'']" and "p_children p = None"
    and "links (p_raw_html p) = Inr ls" and "linked_pages sn n ls = Inr lpages"
    and "mpages = filter (\<lambda>i. any_tag (p_tags i) [''tale'', ''goi-format'', ''goi2014'']) lpages"
    and "\<forall>c \<in> set mpages. \<exists>b. backlinks (p_url p) c = Inr b"
  shows "children sn n p =
           Inr (if \<exists>c \<in> set mpages. backlinks (p_url p) c = Inr True
                then filter (\<lambda>c. backlinks (p_url p) c = Inr True) mpages
                else mpages)
         \<and> (\<forall>c. backlinks (p_url p) c = Inr True \<longleftrightarrow>
               (\<exists>lc. links (p_raw_html c) = Inr lc
                  \<and> (p_url p \<in> set lc
                      \<or> (\<exists>soup. p_raw_html c = Some soup \<and> last_crumb soup = Inr (Some (p_url p))))))
         \<and> map p_url lpages = filter (\<lambda>u. \<exists>q. new_page sn n u = Inr q \<and> p_data q \<noteq> None) ls"
proof (intro conjI allI)
  have t: "any_tag (p_tags p) [''scp'', ''hub'', ''goi2014'', ''splash'']"
    using assms(1) by (simp add: any_tag_def)
  have "children sn n p = select_children (p_url p) (p_tags p) lpages"
    using assms(4,5,6) t by (simp add: children_def children_method.simps and_then_def)
  also have "\<dots> = and_then (any_backlinks (p_url p) mpages)
                     (\<lambda>b. if b then filter_backlinks (p_url p) mpages else Inr mpages)"
    unfolding assms(7) using assms(1,2,3) by (simp add: select_children_def Let_def)
  also have "\<dots> = Inr (if \<exists>c \<in> set mpages. backlinks (p_url p) c = Inr True
                then filter (\<lambda>c. backlinks (p_url p) c = Inr True) mpages
                else mpages)"
    using any_backlinks_ok[OF assms(8)] filter_backlinks_ok[OF assms(8)]
    by (simp add: and_then_def)
  finally show "children sn n p =
           Inr (if \<exists>c \<in> set mpages. backlinks (p_url p) c = Inr True
                then filter (\<lambda>c. backlinks (p_url p) c = Inr True) mpages
                else mpages)" .
next
  fix c
  show "backlinks (p_url p) c = Inr True \<longleftrightarrow>
               (\<exists>lc. links (p_raw_html c) = Inr lc
                  \<and> (p_url p \<in> set lc
                      \<or> (\<exists>soup. p_raw_html c = Some soup \<and> last_crumb soup = Inr (Some (p_url p)))))"
    by (rule backlinks_True)
next
  show "map p_url lpages = filter (\<lambda>u. \<exists>q. new_page sn n u = Inr q \<and> p_data q \<noteq> None) ls"
    by (rule linked_pages_filter[OF assms(6)])
qed

theorem hub_children_witness:
  "\<exists>p lpages.
      new_page backlink_snapshot 2 (scp_url ''some-hub'') = Inr p
    \<and> has_tag (p_tags p) ''hub'' \<and> any_tag (p_tags p) [''tale'', ''goi2014'']
    \<and> \<not> any_tag (p_tags p) [''scp'', ''splash''] \<and> p_children p = None
    \<and> links (p_raw_html p) = Inr [scp_url ''a'', scp_url ''b'', scp_url ''c'', scp_url ''d'']
    \<and> linked_pages backlink_snapshot 1 [scp_url ''a'', scp_url ''b'', scp_url ''c'', scp_url ''d'']
         = Inr lpages
    \<and> (\<forall>c \<in> set (filter (\<lambda>i. any_tag (p_tags i) [''tale'', ''goi-format'', ''goi2014'']) lpages).
           \<exists>b. backlinks (p_url p) c = Inr b)
    \<and> children backlink_snapshot 1 p =
         Inr (if \<exists>c \<in> set (filter (\<lambda>i. any_tag (p_tags i) [''tale'', ''goi-format'', ''goi2014'']) lpages).
                   backlinks (p_url p) c = Inr True
              then filter (\<lambda>c. backlinks (p_url p) c = Inr True)
                     (filter (\<lambda>i. any_tag (p_tags i) [''tale'', ''goi-format'', ''goi2014'']) lpages)
              else filter (\<lambda>i. any_tag (p_tags i) [''tale'', ''goi-format'', ''goi2014'']) lpages)"
proof -
  have e1: "map_sum id (\<lambda>p. (p_url p, has_tag (p_tags p) ''hub'', any_tag (p_tags p) [''tale'', ''goi2014''],
                 \<not> any_tag (p_tags p) [''scp'', ''splash''], p_children p = None, links (p_raw_html p)))
              (new_page backlink_snapshot 2 (scp_url ''some-hub'')) =
            Inr (scp_url ''some-hub'', True, True, True, True,
                 Inr [scp_url ''a'', scp_url ''b'', scp_url ''c'', scp_url ''d''])"
    by code_simp
  from map_sum_Inr[OF e1] obtain p where pp:
    "new_page backlink_snapshot 2 (scp_url ''some-hub'') = Inr p
     \<and> (p_url p, has_tag (p_tags p) ''hub'', any_tag (p_tags p) [''tale'', ''goi2014''],
                 \<not> any_tag (p_tags p) [''scp'', ''splash''], p_children p = None, links (p_raw_html p))
       = (scp_url ''some-hub'', True, True, True, True,
                 Inr [scp_url ''a'', scp_url ''b'', scp_url ''c'', scp_url ''d''])" ..
  from pp have p1: "new_page backlink_snapshot 2 (scp_url ''some-hub'') = Inr p" by (rule conjunct1)
  from pp have q: "p_url p = scp_url ''some-hub'' \<and> has_tag (p_tags p) ''hub''
       \<and> any_tag (p_tags p) [''tale'', ''goi2014''] \<and> \<not> any_tag (p_tags p) [''scp'', ''splash'']
       \<and> p_children p = None
       \<and> links (p_raw_html p) = Inr [scp_url ''a'', scp_url ''b'', scp_url ''c'', scp_url ''d'']"
    by (simp only: prod.inject simp_thms)
  note u = q[THEN conjunct1]
  note h1 = q[THEN conjunct2, THEN conjunct1]
  note h2 = q[THEN conjunct2, THEN conjunct2, THEN conjunct1]
  note h3 = q[THEN conjunct2, THEN conjunct2, THEN conjunct2, THEN conjunct1]
  note h4 = q[THEN conjunct2, THEN conjunct2, THEN conjunct2, THEN conjunct2, THEN conjunct1]
  note h5 = q[THEN conjunct2, THEN conjunct2, THEN conjunct2, THEN conjunct2, THEN conjunct2]
  have e2: "map_sum id (\<lambda>lp. list_all (\<lambda>c. \<not> isl (backlinks (scp_url ''some-hub'') c))
                 (filter (\<lambda>i. any_tag (p_tags i) [''tale'', ''goi-format'', ''goi2014'']) lp))
              (linked_pages backlink_snapshot 1 [scp_url ''a'', scp_url ''b'', scp_url ''c'', scp_url ''d''])
            = Inr True"
    by code_simp
  from map_sum_Inr[OF e2] obtain lpages where ll:
    "linked_pages backlink_snapshot 1 [scp_url ''a'', scp_url ''b'', scp_url ''c'', scp_url ''d''] = Inr lpages
     \<and> list_all (\<lambda>c. \<not> isl (backlinks (scp_url ''some-hub'') c))
                 (filter (\<lambda>i. any_tag (p_tags i) [''tale'', ''goi-format'', ''goi2014'']) lpages) = True" ..
  from ll have h6: "linked_pages backlink_snapshot 1
      [scp_url ''a'', scp_url ''b'', scp_url ''c'', scp_url ''d''] = Inr lpages" by (rule conjunct1)
  from ll have "list_all (\<lambda>c. \<not> isl (backlinks (p_url p) c))
                 (filter (\<lambda>i. any_tag (p_tags i) [''tale'', ''goi-format'', ''goi2014'']) lpages)"
    by (simp only: u simp_thms)
  then have h8: "\<forall>c \<in> set (filter (\<lambda>i. any_tag (p_tags i) [''tale'', ''goi-format'', ''goi2014'']) lpages).
           \<exists>b. backlinks (p_url p) c = Inr b"
    unfolding list_all_iff by (intro ballI not_isl_Inr) (erule bspec)
  note c = hub_children[OF h1 h2 h3 h4 h5 h6 refl h8, THEN conjunct1]
  show ?thesis
    by (intro exI[of _ p] exI[of _ lpages] conjI p1 h1 h2 h3 h4 h5 h6 h8 c)
qed

text \<open>
  What the two hubs of the example return: with \<open>b\<close> and \<open>d\<close> confirmed, only they; with
  no candidate confirmed, all candidates in the order of the links.
\<close>

lemma hub_backlink_values:
  "map_sum id (\<lambda>p. map_sum id (map p_url) (children backlink_snapshot 1 p))
     (new_page backlink_snapshot 2 (scp_url ''some-hub'')) = Inr (Inr [scp_url ''b'', scp_url ''d''])"
  "map_sum id (\<lambda>p. map_sum id (map p_url) (children backlink_snapshot 1 p))
     (new_page backlink_snapshot 2 (scp_url ''lone-hub'')) = Inr (Inr [scp_url ''a'', scp_url ''c''])"
  by code_simp+

text \<open>
  A hub tagged \<open>hub\<close>, \<open>tale\<close> and \<open>scp\<close>: the tale \<open>b\<close> it links to carries a matching tag
  and links back to it, yet the hub has no children, since the branch for \<open>scp\<close> comes
  first and keeps only pages tagged \<open>supplement\<close> or \<open>splash\<close>.
\<close>

theorem scp_tagged_hub_children:
  "map_sum id (\<lambda>p. (has_tag (p_tags p) ''hub'', any_tag (p_tags p) [''tale'', ''goi2014''],
                    map_sum id (map p_url) (children backlink_snapshot 1 p)))
     (new_page backlink_snapshot 2 (scp_url ''series-hub'')) = Inr (True, True, Inr [])
   \<and> map_sum id (\<lambda>c. (any_tag (p_tags c) [''tale'', ''goi-format'', ''goi2014''],
                      backlinks (scp_url ''series-hub'') c))
       (new_page backlink_snapshot 1 (scp_url ''b'')) = Inr (True, Inr True)"
  by code_simp

end
